theory Spec2Isabelle
  imports Complex_Main "HOL-Library.AList" "HOL-Library.Log_Nat"
begin

section \<open>Python values and exceptions\<close>

text \<open>
  The exceptions the modelled code can raise. Every \<^verbatim>\<open>raise\<close> of the source (and of the
  built-ins it calls) is a value \<open>Inl e\<close> of a result type \<open>error + 'a\<close>. The exceptions of
  the network client (\<^verbatim>\<open>aiohttp.ClientError\<close>, \<^verbatim>\<open>asyncio.TimeoutError\<close>) and of the
  document store (\<^verbatim>\<open>helpers.BulkIndexError\<close>) carry their message; \<open>OtherException\<close> stands
  for any exception of a class the program names nowhere.
\<close>

datatype error =
    ValueError
  | TypeError
  | KeyError string
  | OverflowError
  | OSError
  | ZeroDivisionError
  | ClientError string
  | TimeoutError string
  | BulkIndexError string
  | OtherException string

section \<open>The chunk partitioner\<close>

text \<open>
  \<^verbatim>\<open>range(start, stop, step)\<close>: a zero step raises \<^verbatim>\<open>ValueError\<close>; a positive step counts
  up from \<open>start\<close> while below \<open>stop\<close>, a negative step counts down while above it.
\<close>

definition py_range :: "int \<Rightarrow> int \<Rightarrow> int \<Rightarrow> error + int list" where
  "py_range start stop step =
     (if step = 0 then Inl ValueError
      else if 0 < step then
        Inr (map (\<lambda>k. start + int k * step) [0 ..< nat ((stop - start + step - 1) div step)])
      else
        Inr (map (\<lambda>k. start + int k * step) [0 ..< nat ((start - stop - step - 1) div (- step))]))"

text \<open>
  \<^verbatim>\<open>lst[i:j]\<close>: a negative bound counts from the end, and both bounds are clamped to
  \<open>0 .. len(lst)\<close>; slicing never raises.
\<close>

definition slice_bound :: "nat \<Rightarrow> int \<Rightarrow> nat" where
  "slice_bound n i = (if i < 0 then nat (max 0 (i + int n)) else min n (nat i))"

definition py_slice :: "'a list \<Rightarrow> int \<Rightarrow> int \<Rightarrow> 'a list" where
  "py_slice lst i j =
     (let lo = slice_bound (length lst) i; hi = slice_bound (length lst) j
      in take (hi - lo) (drop lo lst))"

text \<open>
  \<^verbatim>\<open>
  def chunks(lst, nb_chunks):
      for i in range(0, len(lst), nb_chunks):
          yield lst[i:i + nb_chunks]
  \<close>
  The generator is consumed at once by \<^verbatim>\<open>list(chunks(block_list, CHUNK_SIZE))\<close>, so the model
  returns the list of the chunks, or the exception \<^verbatim>\<open>range\<close> raises.
\<close>

definition chunks :: "'a list \<Rightarrow> int \<Rightarrow> error + 'a list list" where
  "chunks lst nb_chunks =
     (case py_range 0 (int (length lst)) nb_chunks of
        Inl e \<Rightarrow> Inl e
      | Inr is \<Rightarrow> Inr (map (\<lambda>i. py_slice lst i (i + nb_chunks)) is))"

text \<open>The size of a chunk in blocks, as the program fixes it.\<close>

definition CHUNK_SIZE :: int where "CHUNK_SIZE = 250"

section \<open>Strings and integer literals\<close>

text \<open>
  A Python \<^verbatim>\<open>str\<close> is modelled as a \<open>string\<close>: a list of code points below 256. The
  whitespace that \<^verbatim>\<open>str.strip()\<close> removes is, in this range, the characters 9 to 13, 28
  to 32, 133 and 160.
\<close>

definition py_isspace :: "char \<Rightarrow> bool" where
  "py_isspace c =
     (let n = (of_char c :: nat)
      in (9 \<le> n \<and> n \<le> 13) \<or> (28 \<le> n \<and> n \<le> 32) \<or> n = 133 \<or> n = 160)"

definition py_strip :: "string \<Rightarrow> string" where
  "py_strip s = rev (dropWhile py_isspace (rev (dropWhile py_isspace s)))"

text \<open>
  \<^verbatim>\<open>int()\<close> skips less: the characters 28 to 31 are whitespace for \<^verbatim>\<open>str.strip()\<close> but
  not for \<^verbatim>\<open>int()\<close>, which keeps every character below 127 as it is and skips only
  the C whitespace among them.
\<close>

definition int_isspace :: "char \<Rightarrow> bool" where
  "int_isspace c =
     (let n = (of_char c :: nat)
      in (9 \<le> n \<and> n \<le> 13) \<or> n = 32 \<or> n = 133 \<or> n = 160)"

text \<open>
  The value of a character as a digit: \<open>0\<close> to \<open>9\<close>, then the letters of either case as
  \<open>10\<close> to \<open>35\<close>; \<open>37\<close> for everything else, as in CPython's digit table.
\<close>

definition digit_value :: "char \<Rightarrow> nat" where
  "digit_value c =
     (let n = (of_char c :: nat)
      in if 48 \<le> n \<and> n \<le> 57 then n - 48
         else if 97 \<le> n \<and> n \<le> 122 then n - 87
         else if 65 \<le> n \<and> n \<le> 90 then n - 55
         else 37)"

definition is_digit_char :: "nat \<Rightarrow> char \<Rightarrow> bool" where
  "is_digit_char base c = (digit_value c < base \<or> c = CHR ''_'')"

text \<open>No two underscores in a row, and none at the end (the run does not start with one).\<close>

fun underscores_ok :: "string \<Rightarrow> bool" where
  "underscores_ok [] = True"
| "underscores_ok [c] = (c \<noteq> CHR ''_'')"
| "underscores_ok (c # d # cs) =
     ((c \<noteq> CHR ''_'' \<or> d \<noteq> CHR ''_'') \<and> underscores_ok (d # cs))"

definition digits_value :: "nat \<Rightarrow> string \<Rightarrow> int" where
  "digits_value base ds =
     foldl (\<lambda>a c. a * int base + int (digit_value c)) 0 (filter (\<lambda>c. c \<noteq> CHR ''_'') ds)"

text \<open>
  \<^verbatim>\<open>int(s, base)\<close> on a string, for \<open>base = 0\<close> (the base is read from the prefix
  \<^verbatim>\<open>0x\<close>, \<^verbatim>\<open>0o\<close> or \<^verbatim>\<open>0b\<close>, decimal otherwise) and for \<open>base = 10\<close>, following
  CPython's \<^verbatim>\<open>PyLong_FromString\<close> (3.6 and later, where digits may be grouped with
  underscores): leading whitespace, an optional sign, the prefix and one optional
  underscore after it, then (\<open>digits_result\<close>) a run of digits with single underscores
  between them and trailing whitespace. With base 0, a decimal literal that starts with
  \<open>0\<close> must be zero. Everything else raises \<^verbatim>\<open>ValueError\<close>.
\<close>

definition has_prefix :: "string \<Rightarrow> char \<Rightarrow> char \<Rightarrow> bool" where
  "has_prefix s lo up =
     (case s of c # d # _ \<Rightarrow> c = CHR ''0'' \<and> (d = lo \<or> d = up) | _ \<Rightarrow> False)"

definition digits_result :: "bool \<Rightarrow> bool \<Rightarrow> nat \<Rightarrow> string \<Rightarrow> error + int" where
  "digits_result neg error_if_nonzero base s =
     (let ds = takeWhile (is_digit_char base) s;
          rest = dropWhile int_isspace (dropWhile (is_digit_char base) s);
          z = digits_value base ds
      in if (case s of c # _ \<Rightarrow> c = CHR ''_'' | [] \<Rightarrow> False) then Inl ValueError
         else if \<not> underscores_ok ds then Inl ValueError
         else if error_if_nonzero \<and> z \<noteq> 0 then Inl ValueError
         else if ds = [] then Inl ValueError
         else if rest \<noteq> [] then Inl ValueError
         else Inr (if neg then - z else z))"

definition int_of_str :: "string \<Rightarrow> nat \<Rightarrow> error + int" where
  "int_of_str s base0 =
     (let s1 = dropWhile int_isspace s;
          neg = (case s1 of c # _ \<Rightarrow> c = CHR ''-'' | [] \<Rightarrow> False);
          s2 = (case s1 of c # cs \<Rightarrow> if c = CHR ''+'' \<or> c = CHR ''-'' then cs else s1 | [] \<Rightarrow> s1);
          base = (if base0 \<noteq> 0 then base0
                  else if has_prefix s2 (CHR ''x'') (CHR ''X'') then 16
                  else if has_prefix s2 (CHR ''o'') (CHR ''O'') then 8
                  else if has_prefix s2 (CHR ''b'') (CHR ''B'') then 2
                  else 10);
          error_if_nonzero =
            (base0 = 0 \<and> base = 10 \<and> (case s2 of c # _ \<Rightarrow> c = CHR ''0'' | [] \<Rightarrow> False));
          prefixed = ((base = 16 \<and> has_prefix s2 (CHR ''x'') (CHR ''X''))
                    \<or> (base = 8 \<and> has_prefix s2 (CHR ''o'') (CHR ''O''))
                    \<or> (base = 2 \<and> has_prefix s2 (CHR ''b'') (CHR ''B'')));
          s3 = (if prefixed then drop 2 s2 else s2);
          s4 = (if prefixed then (case s3 of c # cs \<Rightarrow> if c = CHR ''_'' then cs else s3 | [] \<Rightarrow> s3)
                else s3)
      in digits_result neg error_if_nonzero base s4)"

section \<open>The block list read from an input file\<close>

text \<open>
  \<^verbatim>\<open>
  CONTENT = f.readlines()
  block_list = [int(x) for x in CONTENT if x.strip() and len(x.strip()) <= 8]
  \<close>
  \<open>CONTENT\<close> is the list of the file's lines. A line passes the filter when its stripped
  content is non-empty and at most 8 characters long; \<^verbatim>\<open>int(x)\<close> is then applied to the
  line, and its \<^verbatim>\<open>ValueError\<close> ends the comprehension (and the program).
\<close>

definition line_passes :: "string \<Rightarrow> bool" where
  "line_passes x = (py_strip x \<noteq> [] \<and> length (py_strip x) \<le> 8)"

fun block_list_of :: "string list \<Rightarrow> error + int list" where
  "block_list_of [] = Inr []"
| "block_list_of (x # xs) =
     (if line_passes x then
        (case int_of_str x 10 of
           Inl e \<Rightarrow> Inl e
         | Inr n \<Rightarrow> (case block_list_of xs of Inl e \<Rightarrow> Inl e | Inr ns \<Rightarrow> Inr (n # ns)))
      else block_list_of xs)"

section \<open>Floating point\<close>

text \<open>
  A Python \<^verbatim>\<open>float\<close> is an IEEE 754 binary64 number. Its finite values are modelled by the
  rationals they denote, next to the two infinities and NaN; the sign of a zero is not
  modelled (no operation below can tell \<open>-0.0\<close> from \<open>0.0\<close>). Every arithmetic result is
  the exact result rounded to the nearest double, ties to even (\<open>round_double\<close>): 53
  significant bits, the smallest exponent that of the subnormals (\<open>2\<^sup>-\<^sup>1\<^sup>0\<^sup>7\<^sup>4\<close>), and an
  infinity once the rounded magnitude reaches \<open>2\<^sup>1\<^sup>0\<^sup>2\<^sup>4\<close>.
\<close>

datatype pyfloat = Finite rat | PosInf | NegInf | NaN

definition pow2 :: "int \<Rightarrow> rat" where
  "pow2 e = (if 0 \<le> e then 2 ^ nat e else 1 / 2 ^ nat (- e))"

text \<open>\<open>\<lfloor>log\<^sub>2 x\<rfloor>\<close> of a positive rational, from the bit lengths of its numerator and denominator.\<close>

definition floor_log2 :: "rat \<Rightarrow> int" where
  "floor_log2 x =
     (let k = bitlen (fst (quotient_of x)) - bitlen (snd (quotient_of x))
      in if pow2 k \<le> x then k else k - 1)"

definition round_half_even :: "rat \<Rightarrow> int" where
  "round_half_even x =
     (let f = \<lfloor>x\<rfloor>; d = x - of_int f
      in if d < 1 / 2 then f else if 1 / 2 < d then f + 1 else if even f then f else f + 1)"

text \<open>\<open>2\<^sup>1\<^sup>0\<^sup>2\<^sup>4\<close>, the least magnitude that is too large for a double.\<close>

definition DBL_OVERFLOW :: rat where
  "DBL_OVERFLOW =
     179769313486231590772930519078902473361797697894230657273430081157732675805500963132708477322407536021120113879871393357658789768814416622492847430639474124377767893424865485276302219601246094119453082952085005768838150682342462881473913110540827237163350510684586298239947245938479716304835356329624224137216"

definition round_double :: "rat \<Rightarrow> pyfloat" where
  "round_double x =
     (if x = 0 then Finite 0
      else
        let a = \<bar>x\<bar>;
            e = max (floor_log2 a - 52) (- 1074);
            r = of_int (round_half_even (a / pow2 e)) * pow2 e
        in if DBL_OVERFLOW \<le> r then (if 0 < x then PosInf else NegInf)
           else Finite (if 0 < x then r else - r))"

text \<open>
  \<^verbatim>\<open>float(n)\<close> of an integer: correctly rounded, \<^verbatim>\<open>OverflowError\<close> when the integer is too
  large for a double.
\<close>

definition float_of_int :: "int \<Rightarrow> error + pyfloat" where
  "float_of_int n =
     (case round_double (of_int n) of Finite r \<Rightarrow> Inr (Finite r) | _ \<Rightarrow> Inl OverflowError)"

definition float_add :: "pyfloat \<Rightarrow> pyfloat \<Rightarrow> pyfloat" where
  "float_add a b =
     (case (a, b) of
        (Finite x, Finite y) \<Rightarrow> round_double (x + y)
      | (NaN, _) \<Rightarrow> NaN
      | (_, NaN) \<Rightarrow> NaN
      | (PosInf, NegInf) \<Rightarrow> NaN
      | (NegInf, PosInf) \<Rightarrow> NaN
      | (PosInf, _) \<Rightarrow> PosInf
      | (NegInf, _) \<Rightarrow> NegInf
      | (_, PosInf) \<Rightarrow> PosInf
      | (_, NegInf) \<Rightarrow> NegInf)"

text \<open>\<^verbatim>\<open>a / b\<close> on floats: Python raises \<^verbatim>\<open>ZeroDivisionError\<close> on a zero divisor.\<close>

definition float_div :: "pyfloat \<Rightarrow> pyfloat \<Rightarrow> error + pyfloat" where
  "float_div a b =
     (case b of
        Finite y \<Rightarrow>
          if y = 0 then Inl ZeroDivisionError
          else (case a of
                  Finite x \<Rightarrow> Inr (round_double (x / y))
                | PosInf \<Rightarrow> Inr (if 0 < y then PosInf else NegInf)
                | NegInf \<Rightarrow> Inr (if 0 < y then NegInf else PosInf)
                | NaN \<Rightarrow> Inr NaN)
      | NaN \<Rightarrow> Inr NaN
      | _ \<Rightarrow> (case a of Finite x \<Rightarrow> Inr (Finite 0) | _ \<Rightarrow> Inr NaN))"

section \<open>Python values\<close>

text \<open>
  The values the program handles: what \<^verbatim>\<open>response.json()\<close> returns (JSON decoded into
  dictionaries with string keys, lists, strings, integers, floats, booleans and
  \<^verbatim>\<open>None\<close>), and the \<^verbatim>\<open>datetime\<close> objects \<open>process_block\<close> stores, kept as the POSIX
  timestamp they were made from. A dictionary is an association list in insertion order
  with distinct keys; a freshly decoded document shares no object with another, so
  updating a dictionary in place is modelled by returning the updated value.
\<close>

datatype pyval =
    PyNone
  | PyBool bool
  | PyInt int
  | PyFloat pyfloat
  | PyStr string
  | PyList "pyval list"
  | PyDict "(string \<times> pyval) list"
  | PyDatetime int

definition and_then :: "error + 'a \<Rightarrow> ('a \<Rightarrow> error + 'b) \<Rightarrow> error + 'b" where
  "and_then r f = (case r of Inl e \<Rightarrow> Inl e | Inr x \<Rightarrow> f x)"

text \<open>
  \<^verbatim>\<open>obj[key]\<close> for a string key: a lookup in a dictionary (\<^verbatim>\<open>KeyError\<close> when absent),
  \<^verbatim>\<open>TypeError\<close> on every other value (a list or a string takes integer indices only, the
  rest cannot be subscripted).
\<close>

definition getitem :: "pyval \<Rightarrow> string \<Rightarrow> error + pyval" where
  "getitem obj key =
     (case obj of
        PyDict d \<Rightarrow> (case map_of d key of Some v \<Rightarrow> Inr v | None \<Rightarrow> Inl (KeyError key))
      | _ \<Rightarrow> Inl TypeError)"

text \<open>\<^verbatim>\<open>obj[key] = v\<close> for a string key: the key keeps its place when it is there already.\<close>

definition setitem :: "pyval \<Rightarrow> string \<Rightarrow> pyval \<Rightarrow> error + pyval" where
  "setitem obj key v =
     (case obj of
        PyDict d \<Rightarrow> Inr (PyDict (AList.update key v d))
      | _ \<Rightarrow> Inl TypeError)"

text \<open>
  \<^verbatim>\<open>int(x, 0)\<close>: with an explicit base the argument must be a string, else \<^verbatim>\<open>TypeError\<close>.
\<close>

definition py_int0 :: "pyval \<Rightarrow> error + int" where
  "py_int0 x = (case x of PyStr s \<Rightarrow> int_of_str s 0 | _ \<Rightarrow> Inl TypeError)"

text \<open>
  \<^verbatim>\<open>for tx in obj\<close>: the elements of a list, the characters of a string, the keys of a
  dictionary; \<^verbatim>\<open>TypeError\<close> on a value that is not iterable.
\<close>

definition iterate :: "pyval \<Rightarrow> error + pyval list" where
  "iterate obj =
     (case obj of
        PyList xs \<Rightarrow> Inr xs
      | PyStr s \<Rightarrow> Inr (map (\<lambda>c. PyStr [c]) s)
      | PyDict d \<Rightarrow> Inr (map (\<lambda>kv. PyStr (fst kv)) d)
      | _ \<Rightarrow> Inl TypeError)"

text \<open>
  \<^verbatim>\<open>a / b\<close> and \<^verbatim>\<open>a + b\<close> on the operands the program applies them to: it divides an
  integer by a float, and adds a float to an integer (the initial \<open>0\<close>) or to a float. An
  integer operand next to a float is converted with \<^verbatim>\<open>float()\<close> first. Every other pair
  of operands is given \<^verbatim>\<open>TypeError\<close> here; the program never reaches one.
\<close>

definition truediv :: "pyval \<Rightarrow> pyval \<Rightarrow> error + pyval" where
  "truediv a b =
     (case (a, b) of
        (PyInt i, PyFloat y) \<Rightarrow>
          and_then (float_of_int i) (\<lambda>x. and_then (float_div x y) (\<lambda>q. Inr (PyFloat q)))
      | (PyFloat x, PyFloat y) \<Rightarrow> and_then (float_div x y) (\<lambda>q. Inr (PyFloat q))
      | _ \<Rightarrow> Inl TypeError)"

definition add :: "pyval \<Rightarrow> pyval \<Rightarrow> error + pyval" where
  "add a b =
     (case (a, b) of
        (PyInt i, PyInt j) \<Rightarrow> Inr (PyInt (i + j))
      | (PyInt i, PyFloat y) \<Rightarrow> and_then (float_of_int i) (\<lambda>x. Inr (PyFloat (float_add x y)))
      | (PyFloat x, PyInt j) \<Rightarrow> and_then (float_of_int j) (\<lambda>y. Inr (PyFloat (float_add x y)))
      | (PyFloat x, PyFloat y) \<Rightarrow> Inr (PyFloat (float_add x y))
      | _ \<Rightarrow> Inl TypeError)"

text \<open>
  \<^verbatim>\<open>datetime.datetime.fromtimestamp(t)\<close>: the local time of a POSIX timestamp. It raises
  \<^verbatim>\<open>OverflowError\<close> when the timestamp does not fit the platform's \<^verbatim>\<open>time_t\<close>,
  \<^verbatim>\<open>OSError\<close> when the C library cannot convert it (the year does not fit a C \<^verbatim>\<open>int\<close>)
  and \<^verbatim>\<open>ValueError\<close> when the year is not in 1 to 9999, or when the time one day
  earlier, which CPython looks at as well, is before the year 1: the first timestamp
  accepted is that of 0001-01-02 00:00:00. The bounds written here are those of CPython
  on 64-bit Linux with the local time zone at UTC; elsewhere they are shifted, the three
  cases are the same.
\<close>

definition fromtimestamp :: "int \<Rightarrow> error + pyval" where
  "fromtimestamp t =
     (if t < - (2 ^ 63) \<or> 2 ^ 63 \<le> t then Inl OverflowError
      else if t < - 67768040609740800 \<or> 67768036191676799 < t then Inl OSError
      else if t < - 62135510400 \<or> 253402300799 < t then Inl ValueError
      else Inr (PyDatetime t))"

section \<open>The block and transaction normalizer\<close>

definition TX_INDEX_NAME :: string where "TX_INDEX_NAME = ''ethereum-transaction''"

definition B_INDEX_NAME :: string where "B_INDEX_NAME = ''ethereum-block''"

definition WEI_ETH_FACTOR :: pyval where "WEI_ETH_FACTOR = PyFloat (Finite 1000000000000000000)"

text \<open>
  An index action: the dictionary with the keys \<^verbatim>\<open>_index\<close>, \<^verbatim>\<open>_type\<close>, \<^verbatim>\<open>_id\<close> and
  \<^verbatim>\<open>_source\<close> that \<open>process_block\<close> appends to \<open>actions\<close>.
\<close>

record action =
  act_index :: string
  act_type :: string
  act_id :: pyval
  act_source :: pyval

text \<open>
  The first three statements of the loop body, on one transaction:
  \<^verbatim>\<open>
  tx["blockNumber"] = int(tx["blockNumber"], 0)
  tx["blockTimestamp"] = block_timestamp
  tx["value"] = int(tx["value"], 0) / WEI_ETH_FACTOR
  \<close>
\<close>

definition stamp_tx :: "pyval \<Rightarrow> pyval \<Rightarrow> error + pyval" where
  "stamp_tx block_timestamp tx =
     and_then (getitem tx ''blockNumber'') (\<lambda>raw_nb.
     and_then (py_int0 raw_nb) (\<lambda>nb.
     and_then (setitem tx ''blockNumber'' (PyInt nb)) (\<lambda>tx1.
     and_then (setitem tx1 ''blockTimestamp'' block_timestamp) (\<lambda>tx2.
     and_then (getitem tx2 ''value'') (\<lambda>raw_value.
     and_then (py_int0 raw_value) (\<lambda>wei.
     and_then (truediv (PyInt wei) WEI_ETH_FACTOR) (\<lambda>ether.
     setitem tx2 ''value'' ether)))))))"

text \<open>
  The loop \<^verbatim>\<open>for tx in transactions\<close>, with its three mutable variables: \<open>tx_hashes\<close>,
  \<open>tx_value_sum\<close> and the shared list \<open>actions\<close>. An exception leaves \<open>actions\<close> as the
  iterations before it made it.
  \<^verbatim>\<open>
      tx_value_sum += tx["value"]
      actions.append(
          {"_index": TX_INDEX_NAME, "_type": "tx", "_id": tx["hash"], "_source": tx}
      )
      tx_hashes.append(tx["hash"])
  \<close>
\<close>

fun tx_loop ::
  "pyval \<Rightarrow> pyval list \<Rightarrow> pyval list \<Rightarrow> pyval \<Rightarrow> action list
     \<Rightarrow> (error + pyval list \<times> pyval) \<times> action list" where
  "tx_loop block_timestamp [] tx_hashes tx_value_sum actions =
     (Inr (tx_hashes, tx_value_sum), actions)"
| "tx_loop block_timestamp (tx # txs) tx_hashes tx_value_sum actions =
     (case and_then (stamp_tx block_timestamp tx) (\<lambda>tx'.
           and_then (getitem tx' ''value'') (\<lambda>v.
           and_then (add tx_value_sum v) (\<lambda>tx_value_sum'.
           and_then (getitem tx' ''hash'') (\<lambda>h.
           Inr (tx', tx_value_sum', h))))) of
        Inl e \<Rightarrow> (Inl e, actions)
      | Inr (tx', tx_value_sum', h) \<Rightarrow>
          tx_loop block_timestamp txs (tx_hashes @ [h]) tx_value_sum'
            (actions @ [\<lparr>act_index = TX_INDEX_NAME, act_type = ''tx'', act_id = h, act_source = tx'\<rparr>]))"

text \<open>
  The statements after the loop, on the block's dictionary:
  \<^verbatim>\<open>
  block["transactions"] = tx_hashes
  block["number"] = block_nb
  block["timestamp"] = block_timestamp
  block["gasLimit"] = int(block["gasLimit"], 0)
  block["gasUsed"] = int(block["gasUsed"], 0)
  block["size"] = int(block["size"], 0)
  block["transactionCount"] = len(tx_hashes)
  block["txValueSum"] = tx_value_sum
  \<close>
\<close>

definition convert_field :: "pyval \<Rightarrow> string \<Rightarrow> error + pyval" where
  "convert_field block key =
     and_then (getitem block key) (\<lambda>raw.
     and_then (py_int0 raw) (\<lambda>n. setitem block key (PyInt n)))"

definition finish_block :: "pyval \<Rightarrow> pyval list \<Rightarrow> int \<Rightarrow> pyval \<Rightarrow> pyval \<Rightarrow> error + pyval" where
  "finish_block block tx_hashes block_nb block_timestamp tx_value_sum =
     and_then (setitem block ''transactions'' (PyList tx_hashes)) (\<lambda>b1.
     and_then (setitem b1 ''number'' (PyInt block_nb)) (\<lambda>b2.
     and_then (setitem b2 ''timestamp'' block_timestamp) (\<lambda>b3.
     and_then (convert_field b3 ''gasLimit'') (\<lambda>b4.
     and_then (convert_field b4 ''gasUsed'') (\<lambda>b5.
     and_then (convert_field b5 ''size'') (\<lambda>b6.
     and_then (setitem b6 ''transactionCount'' (PyInt (int (length tx_hashes)))) (\<lambda>b7.
     setitem b7 ''txValueSum'' tx_value_sum)))))))"

text \<open>
  \<^verbatim>\<open>
  def process_block(block, actions):
      block = block["result"]
      transactions = block["transactions"]
      tx_hashes = list()
      tx_value_sum = 0
      block_nb = int(block["number"], 0)
      block_timestamp = datetime.datetime.fromtimestamp(int(block["timestamp"], 0))
      for tx in transactions: ...
      ...
      actions.append({"_index": B_INDEX_NAME, "_type": "b", "_id": block_nb, "_source": block})
  \<close>
  The function returns nothing and appends to \<open>actions\<close>; the model returns the exception
  or \<open>()\<close>, and the list as the call leaves it.
\<close>

definition process_block :: "pyval \<Rightarrow> action list \<Rightarrow> (error + unit) \<times> action list" where
  "process_block response actions =
     (case and_then (getitem response ''result'') (\<lambda>block.
           and_then (getitem block ''transactions'') (\<lambda>transactions.
           and_then (and_then (getitem block ''number'') py_int0) (\<lambda>block_nb.
           and_then (and_then (and_then (getitem block ''timestamp'') py_int0) fromtimestamp)
             (\<lambda>block_timestamp.
           and_then (iterate transactions) (\<lambda>txs.
           Inr (block, block_nb, block_timestamp, txs)))))) of
        Inl e \<Rightarrow> (Inl e, actions)
      | Inr (block, block_nb, block_timestamp, txs) \<Rightarrow>
          (case tx_loop block_timestamp txs [] (PyInt 0) actions of
             (Inl e, actions1) \<Rightarrow> (Inl e, actions1)
           | (Inr (tx_hashes, tx_value_sum), actions1) \<Rightarrow>
               (case finish_block block tx_hashes block_nb block_timestamp tx_value_sum of
                  Inl e \<Rightarrow> (Inl e, actions1)
                | Inr block' \<Rightarrow>
                    (Inr (),
                     actions1 @
                       [\<lparr>act_index = B_INDEX_NAME, act_type = ''b'', act_id = PyInt block_nb,
                         act_source = block'\<rparr>]))))"

section \<open>Fetching a chunk and committing it\<close>

text \<open>
  What the program does to the outside: the error log (\<^verbatim>\<open>error_blocks.log\<close>, written by
  \<^verbatim>\<open>logging.error\<close>), the standard output (written by \<^verbatim>\<open>print\<close>) and the bulk writes
  handed to the document store. A log entry or a printed line is kept as the format it
  was made with and the values filled in.
\<close>

datatype log_entry =
    LogBlock pyval  \<comment> \<open>\<^verbatim>\<open>logging.error("block: " + str(x))\<close>\<close>

datatype printed =
    IssueWithBlock int string  \<comment> \<open>\<^verbatim>\<open>"Issue with block {}:\n{}\n".format(block, exception)\<close>\<close>
  | IssueWithBlocks nat string  \<comment> \<open>\<^verbatim>\<open>"Issue with {} blocks:\n{}\n".format(len(blocks), exception)\<close>\<close>
  | ChunkSummary int nat nat  \<comment> \<open>\<^verbatim>\<open>"#{}: ({}b, {}tx)".format(max(...), len(blocks), len(txs))\<close>\<close>

record world =
  out_actions :: "action list"
  error_log :: "log_entry list"
  stdout :: "printed list"
  bulk_calls :: "action list list"

text \<open>
  What a request to the RPC node produces: the decoded JSON of the response, or an
  exception raised by \<^verbatim>\<open>session.post\<close> or \<^verbatim>\<open>response.json()\<close>.
\<close>

datatype outcome = Response pyval | Raises error

type_synonym process_fn = "pyval \<Rightarrow> action list \<Rightarrow> (error + unit) \<times> action list"

text \<open>
  \<^verbatim>\<open>
  async def fetch(url, session, block, process_fn, actions):
      try:
          async with session.post(url, data=make_request(block), headers=...) as response:
              process_fn(await response.json(), actions)
      except (aiohttp.ClientError, asyncio.TimeoutError) as exception:
          logging.error("block: " + str(block))
          print("Issue with block {}:\n{}\n".format(block, exception))
  \<close>
  The \<^verbatim>\<open>except\<close> clause names two classes; an exception of any other class, from the
  request or from \<open>process_fn\<close>, leaves \<open>fetch\<close>.
\<close>

definition handle_fetch_error :: "int \<Rightarrow> error \<Rightarrow> world \<Rightarrow> (error + unit) \<times> world" where
  "handle_fetch_error block e w =
     (case e of
        ClientError msg \<Rightarrow>
          (Inr (), w\<lparr>error_log := error_log w @ [LogBlock (PyInt block)],
                     stdout := stdout w @ [IssueWithBlock block msg]\<rparr>)
      | TimeoutError msg \<Rightarrow>
          (Inr (), w\<lparr>error_log := error_log w @ [LogBlock (PyInt block)],
                     stdout := stdout w @ [IssueWithBlock block msg]\<rparr>)
      | _ \<Rightarrow> (Inl e, w))"

definition fetch :: "int \<Rightarrow> process_fn \<Rightarrow> outcome \<Rightarrow> world \<Rightarrow> (error + unit) \<times> world" where
  "fetch block process_fn response w =
     (case response of
        Raises e \<Rightarrow> handle_fetch_error block e w
      | Response json \<Rightarrow>
          (case process_fn json (out_actions w) of
             (Inl e, acts) \<Rightarrow> handle_fetch_error block e (w\<lparr>out_actions := acts\<rparr>)
           | (Inr u, acts) \<Rightarrow> (Inr (), w\<lparr>out_actions := acts\<rparr>)))"

text \<open>
  \<^verbatim>\<open>
  async def run(block_range, process_fn, actions):
      tasks = []
      sem = asyncio.Semaphore(SEM_SIZE)
      async with aiohttp.ClientSession() as session:
          for i in block_range:
              task = asyncio.ensure_future(sema_fetch(sem, ETH_URL, session, i, process_fn, actions))
              tasks.append(task)
          await asyncio.gather(*tasks)
  \<close>
  One task per block of the chunk. The tasks run on one thread and \<open>process_fn\<close> never
  suspends, so each fetch acts on the shared \<open>actions\<close> at once, when its response is
  there. The model is given the blocks of \<open>block_range\<close> in the order in which their
  fetches complete, each with what its request produced, and runs the fetches in that
  order. \<^verbatim>\<open>gather\<close> raises the first exception that leaves a task and cancels nothing:
  until the event loop stops, the fetches that are due in the loop turns left still run,
  with their effects on the log, the output and \<open>actions\<close>, and what they return or raise
  is dropped. How many they are is up to the scheduler: the model is given their number,
  \<open>late\<close>, and \<open>finish_late\<close> runs that many of the remaining fetches.
\<close>

fun finish_late :: "nat \<Rightarrow> (int \<times> outcome) list \<Rightarrow> process_fn \<Rightarrow> world \<Rightarrow> world" where
  "finish_late 0 block_range process_fn w = w"
| "finish_late (Suc late) [] process_fn w = w"
| "finish_late (Suc late) ((i, response) # block_range) process_fn w =
     finish_late late block_range process_fn (snd (fetch i process_fn response w))"

fun run ::
  "(int \<times> outcome) list \<Rightarrow> nat \<Rightarrow> process_fn \<Rightarrow> world \<Rightarrow> (error + unit) \<times> world" where
  "run [] late process_fn w = (Inr (), w)"
| "run ((i, response) # block_range) late process_fn w =
     (case fetch i process_fn response w of
        (Inl e, w') \<Rightarrow> (Inl e, finish_late late block_range process_fn w')
      | (Inr u, w') \<Rightarrow> run block_range late process_fn w')"

text \<open>
  \<^verbatim>\<open>int(x)\<close> of a value: an integer is itself, a boolean 0 or 1, a string is read in base
  10, a float is truncated; \<^verbatim>\<open>TypeError\<close> otherwise.
\<close>

definition py_int :: "pyval \<Rightarrow> error + int" where
  "py_int x =
     (case x of
        PyInt n \<Rightarrow> Inr n
      | PyBool b \<Rightarrow> Inr (if b then 1 else 0)
      | PyStr s \<Rightarrow> int_of_str s 10
      | PyFloat f \<Rightarrow>
          (case f of
             Finite r \<Rightarrow> Inr (if 0 \<le> r then \<lfloor>r\<rfloor> else \<lceil>r\<rceil>)
           | NaN \<Rightarrow> Inl ValueError
           | _ \<Rightarrow> Inl OverflowError)
      | _ \<Rightarrow> Inl TypeError)"

text \<open>\<^verbatim>\<open>max([int(b["_id"]) for b in blocks])\<close>: \<^verbatim>\<open>max\<close> of an empty list raises \<^verbatim>\<open>ValueError\<close>.\<close>

fun ints_of_ids :: "action list \<Rightarrow> error + int list" where
  "ints_of_ids [] = Inr []"
| "ints_of_ids (b # bs) =
     and_then (py_int (act_id b)) (\<lambda>n. and_then (ints_of_ids bs) (\<lambda>ns. Inr (n # ns)))"

definition max_block_id :: "action list \<Rightarrow> error + int" where
  "max_block_id blocks =
     and_then (ints_of_ids blocks) (\<lambda>ns.
       case ns of [] \<Rightarrow> Inl ValueError | n # ns' \<Rightarrow> Inr (fold max ns' n))"

text \<open>
  \<^verbatim>\<open>
  def setup_process(block_range):
      out_actions = list()
      elasticsearch = Elasticsearch(...)
      loop = asyncio.get_event_loop()
      future = asyncio.ensure_future(run(block_range, process_block, out_actions))
      loop.run_until_complete(future)
      blocks = [act for act in out_actions if act["_type"] == "b"]
      txs = [act for act in out_actions if act["_type"] == "tx"]
      if blocks or txs:
          try:
              helpers.bulk(elasticsearch, out_actions)
              print("#{}: ({}b, {}tx)".format(
                  max([int(b["_id"]) for b in blocks]), len(blocks), len(txs)))
          except helpers.BulkIndexError as exception:
              print("Issue with {} blocks:\n{}\n".format(len(blocks), exception))
              for act in blocks:
                  logging.error("block: " + str(act["_id"]))
  \<close>
  \<open>bulk\<close> is what \<^verbatim>\<open>helpers.bulk\<close> does when it is called: it returns (\<open>None\<close>), or raises.
  \<^verbatim>\<open>run_until_complete\<close> raises what \<open>run\<close> raised. \<open>block_range\<close> and \<open>late\<close> are what
  \<open>run\<close> is given.
\<close>

definition commit :: "error option \<Rightarrow> world \<Rightarrow> (error + unit) \<times> world" where
  "commit bulk w =
     (let blocks = filter (\<lambda>act. act_type act = ''b'') (out_actions w);
          txs = filter (\<lambda>act. act_type act = ''tx'') (out_actions w)
      in if blocks \<noteq> [] \<or> txs \<noteq> [] then
           (let w1 = w\<lparr>bulk_calls := bulk_calls w @ [out_actions w]\<rparr>
            in case bulk of
                 None \<Rightarrow>
                   (case max_block_id blocks of
                      Inl e \<Rightarrow> (Inl e, w1)
                    | Inr m \<Rightarrow>
                        (Inr (), w1\<lparr>stdout := stdout w1 @ [ChunkSummary m (length blocks) (length txs)]\<rparr>))
               | Some (BulkIndexError msg) \<Rightarrow>
                   (Inr (), w1\<lparr>stdout := stdout w1 @ [IssueWithBlocks (length blocks) msg],
                               error_log := error_log w1 @ map (\<lambda>act. LogBlock (act_id act)) blocks\<rparr>)
               | Some e \<Rightarrow> (Inl e, w1))
         else (Inr (), w))"

definition setup_process ::
  "(int \<times> outcome) list \<Rightarrow> nat \<Rightarrow> error option \<Rightarrow> world \<Rightarrow> (error + unit) \<times> world" where
  "setup_process block_range late bulk w =
     (case run block_range late process_block (w\<lparr>out_actions := []\<rparr>) of
        (Inl e, w') \<Rightarrow> (Inl e, w')
      | (Inr u, w') \<Rightarrow> commit bulk w')"

section \<open>The admission gate\<close>

text \<open>
  \<^verbatim>\<open>
  async def sema_fetch(sem, url, session, block, process_fn, actions):
      async with sem:
          await fetch(url, session, block, process_fn, actions)
  \<close>
  The tasks of a chunk as a transition system. A task waits until it has acquired the
  semaphore, is then in flight (inside \<^verbatim>\<open>async with sem\<close>, where \<open>fetch\<close> issues the
  request), and is done once \<open>fetch\<close> has returned or raised: \<^verbatim>\<open>async with\<close> releases the
  semaphore on either exit. \<^verbatim>\<open>asyncio.Semaphore(n)\<close> is a counter that starts at \<open>n\<close>;
  \<^verbatim>\<open>acquire\<close> goes through only when the counter is positive and decrements it,
  \<^verbatim>\<open>release\<close> increments it.
\<close>






section \<open>Notions the properties are stated with\<close>

text \<open>
  The accumulation the loop of \<open>process_block\<close> makes with \<open>add\<close>, as a function of the
  start value and the list of the values added; it serves the proofs only.
\<close>

fun sum_from :: "pyval \<Rightarrow> pyval list \<Rightarrow> error + pyval" where
  "sum_from s [] = Inr s"
| "sum_from s (v # vs) = and_then (add s v) (\<lambda>s'. sum_from s' vs)"

text \<open>
  What one iteration of the loop of \<open>process_block\<close> appends for the transaction \<open>tx\<close>: the
  action of type \<^verbatim>\<open>tx\<close> whose source is the stamped transaction and whose identifier is
  its \<^verbatim>\<open>hash\<close>.
\<close>

definition tx_action_ok :: "pyval \<Rightarrow> pyval \<Rightarrow> action \<Rightarrow> bool" where
  "tx_action_ok ts tx a \<longleftrightarrow>
     stamp_tx ts tx = Inr (act_source a) \<and> act_type a = ''tx'' \<and> act_index a = TX_INDEX_NAME
     \<and> getitem (act_source a) ''hash'' = Inr (act_id a)"

text \<open>The response of the end-to-end scenario: the raw block under the key \<^verbatim>\<open>result\<close>.\<close>

definition scenario_response :: pyval where
  "scenario_response =
     PyDict [(''result'', PyDict
       [(''number'', PyStr ''0x64''),
        (''timestamp'', PyStr ''0x5f5e100''),
        (''gasLimit'', PyStr ''0x7a1200''),
        (''gasUsed'', PyStr ''0x3d0900''),
        (''size'', PyStr ''0x2710''),
        (''transactions'', PyList
           [PyDict [(''hash'', PyStr ''0xaa''),
                    (''blockNumber'', PyStr ''0x64''),
                    (''value'', PyStr ''0xde0b6b3a7640000'')]])])]"

text \<open>
  A response whose block holds three transactions, of 1, 2 and 0.5 ether
  (\<open>10\<^sup>1\<^sup>8\<close>, \<open>2 \<times> 10\<^sup>1\<^sup>8\<close> and \<open>5 \<times> 10\<^sup>1\<^sup>7\<close> wei).
\<close>

definition three_tx_response :: pyval where
  "three_tx_response =
     PyDict [(''result'', PyDict
       [(''number'', PyStr ''0x64''),
        (''timestamp'', PyStr ''0x5f5e100''),
        (''gasLimit'', PyStr ''0x7a1200''),
        (''gasUsed'', PyStr ''0x3d0900''),
        (''size'', PyStr ''0x2710''),
        (''transactions'', PyList
           [PyDict [(''hash'', PyStr ''0xaa''),
                    (''blockNumber'', PyStr ''0x64''),
                    (''value'', PyStr ''0xde0b6b3a7640000'')],
            PyDict [(''hash'', PyStr ''0xbb''),
                    (''blockNumber'', PyStr ''0x64''),
                    (''value'', PyStr ''0x1bc16d674ec80000'')],
            PyDict [(''hash'', PyStr ''0xcc''),
                    (''blockNumber'', PyStr ''0x64''),
                    (''value'', PyStr ''0x6f05b59d3b20000'')]])])]"

text \<open>
  A response whose transaction carries a \<^verbatim>\<open>blockNumber\<close> (\<^verbatim>\<open>0x65\<close>) other than the number
  of the block that holds it (\<^verbatim>\<open>0x64\<close>).
\<close>

definition mismatch_response :: pyval where
  "mismatch_response =
     PyDict [(''result'', PyDict
       [(''number'', PyStr ''0x64''),
        (''timestamp'', PyStr ''0x5f5e100''),
        (''gasLimit'', PyStr ''0x7a1200''),
        (''gasUsed'', PyStr ''0x3d0900''),
        (''size'', PyStr ''0x2710''),
        (''transactions'', PyList
           [PyDict [(''hash'', PyStr ''0xaa''),
                    (''blockNumber'', PyStr ''0x65''),
                    (''value'', PyStr ''0xde0b6b3a7640000'')]])])]"


text \<open>The world before anything is logged, printed or written.\<close>

definition world0 :: world where
  "world0 = \<lparr>out_actions = [], error_log = [], stdout = [], bulk_calls = []\<rparr>"


section \<open>Verification: the chunk partitioner\<close>

lemma py_slice_nonneg:
  "0 \<le> i \<Longrightarrow> 0 \<le> j \<Longrightarrow> py_slice lst i j = take (nat j - nat i) (drop (nat i) lst)"
  by (auto simp: py_slice_def slice_bound_def Let_def min_def)

lemma chunks_pos:
  assumes "0 < c"
  shows "chunks lst c =
    Inr (map (\<lambda>k. take (nat c) (drop (k * nat c) lst)) [0 ..< (length lst + nat c - 1) div nat c])"
proof -
  have cnt: "nat ((int (length lst) + c - 1) div c) = (length lst + nat c - 1) div nat c"
  proof -
    have "int (length lst) + c - 1 = int (length lst + nat c - 1)" using assms by auto
    moreover have "c = int (nat c)" using assms by simp
    ultimately have "(int (length lst) + c - 1) div c = int ((length lst + nat c - 1) div nat c)"
      by (metis zdiv_int)
    then show ?thesis by simp
  qed
  have sl: "py_slice lst (int k * c) (int k * c + c) = take (nat c) (drop (k * nat c) lst)" for k
  proof -
    have "nat (int k * c) = k * nat c" using assms by (simp add: nat_mult_distrib)
    moreover have "nat (int k * c + c) - nat (int k * c) = nat c" using assms
      by (simp add: nat_add_distrib)
    ultimately show ?thesis using assms by (simp add: py_slice_nonneg)
  qed
  show ?thesis using assms
    by (simp add: chunks_def py_range_def cnt sl o_def del: One_nat_def)
qed

lemma concat_take_chunks:
  "concat (map (\<lambda>k. take n (drop (k * n) lst)) [0 ..< m]) = take (m * n) lst"
proof (induction m)
  case 0 show ?case by simp
next
  case (Suc m)
  have "take (m * n) lst @ take n (drop (m * n) lst) = take (m * n + n) lst"
    by (simp add: take_add)
  with Suc show ?case by (simp add: add.commute)
qed


lemma ceil_div_bounds:
  fixes N n :: nat
  assumes "0 < n"
  shows "N \<le> ((N + n - 1) div n) * n"
    and "0 < N \<Longrightarrow> ((N + n - 1) div n - 1) * n < N"
    and "0 < N \<Longrightarrow> 0 < (N + n - 1) div n"
    and "0 < N \<Longrightarrow> N - ((N + n - 1) div n - 1) * n = (if N mod n = 0 then n else N mod n)"
proof -
  define m where "m = (N + n - 1) div n"
  have eq: "N + n - 1 = m * n + (N + n - 1) mod n"
    unfolding m_def by simp
  have lt: "(N + n - 1) mod n < n" using assms by simp
  show 1: "N \<le> m * n" using eq lt assms by linarith
  show 3: "0 < m" if "0 < N"
  proof (rule ccontr)
    assume "\<not> 0 < m"
    then have "m = 0" by simp
    with 1 that show False by simp
  qed
  show 2: "(m - 1) * n < N" if "0 < N"
  proof -
    from 3[OF that] obtain m' where m': "m = Suc m'" by (cases m) auto
    have "m' * n + n \<le> N + n - 1" using eq m' by simp
    then show ?thesis using m' that assms by simp
  qed
  show "N - (m - 1) * n = (if N mod n = 0 then n else N mod n)" if "0 < N"
  proof -
    from 3[OF that] obtain m' where m': "m = Suc m'" by (cases m) auto
    have lo: "m' * n < N" using 2[OF that] m' by simp
    have hi: "N \<le> m' * n + n" using 1 m' by simp
    show ?thesis
    proof (cases "N mod n = 0")
      case True
      then have "n dvd N" by auto
      then obtain q where q: "N = q * n" by (auto simp: dvd_def mult.commute)
      have "m' < q" using lo q assms by simp
      moreover have "q \<le> Suc m'"
      proof -
        have "q * n \<le> Suc m' * n" using hi q by simp
        then show ?thesis using assms mult_le_cancel2 by blast
      qed
      ultimately have "q = Suc m'" by simp
      with q True m' show ?thesis by simp
    next
      case False
      have "N = (N div n) * n + N mod n" by simp
      have "N div n = m'"
      proof (rule div_nat_eqI)
        show "n * m' \<le> N" using lo by (simp add: mult.commute)
        have "N \<noteq> m' * n + n" using False by auto
        then show "N < n * Suc m'" using hi by (simp add: mult.commute)
      qed
      then have "N - m' * n = N mod n"
        by (metis \<open>N = N div n * n + N mod n\<close> add_diff_cancel_left')
      with False m' show ?thesis by simp
    qed
  qed
qed

text \<open>
  Claim C1. For a list of \<open>N\<close> block numbers and a chunk size \<open>C > 0\<close>, \<open>chunks\<close> returns
  (it raises nothing) exactly \<open>\<lceil>N / C\<rceil>\<close> chunks; concatenated in order they are the original
  list; every chunk but the last has length \<open>C\<close>; and the last one, when there is one, has
  length \<open>N mod C\<close>, or \<open>C\<close> when \<open>N mod C = 0\<close>.
\<close>

theorem chunks_partition:
  assumes "0 < c"
  shows "\<exists>cs. chunks lst c = Inr cs
           \<and> int (length cs) = \<lceil>(of_nat (length lst) :: rat) / of_int c\<rceil>
           \<and> concat cs = lst
           \<and> (\<forall>k. Suc k < length cs \<longrightarrow> int (length (cs ! k)) = c)
           \<and> (cs \<noteq> [] \<longrightarrow>
                int (length (last cs)) =
                  (if int (length lst) mod c = 0 then c else int (length lst) mod c))"
proof -
  define n where "n = nat c"
  define N where "N = length lst"
  define m where "m = (N + n - 1) div n"
  define cs where "cs = map (\<lambda>k. take n (drop (k * n) lst)) [0 ..< m]"
  have npos: "0 < n" and c: "c = int n" using assms by (simp_all add: n_def)
  have eq: "chunks lst c = Inr cs"
    unfolding cs_def m_def N_def n_def by (rule chunks_pos [OF assms])
  have len: "length cs = m" by (simp add: cs_def)
  have cnt: "int m = \<lceil>(of_nat N :: rat) / of_int c\<rceil>"
  proof (cases "N = 0")
    case True
    then show ?thesis by (simp add: m_def npos)
  next
    case False
    then have Npos: "0 < N" by simp
    have nr: "(0::rat) < of_nat n" using npos by simp
    have "(m - 1) * n < N" unfolding m_def by (rule ceil_div_bounds(2)[OF npos Npos])
    moreover have "0 < m" unfolding m_def by (rule ceil_div_bounds(3)[OF npos Npos])
    ultimately have "(of_nat m - 1) * (of_nat n :: rat) < of_nat N"
      by (metis of_nat_1 of_nat_diff of_nat_less_iff of_nat_mult Suc_leI One_nat_def)
    then have lo: "(of_int (int m) :: rat) - 1 < of_nat N / of_nat n"
      using nr by (simp add: pos_less_divide_eq)
    have "N \<le> m * n" unfolding m_def by (rule ceil_div_bounds(1)[OF npos])
    then have "(of_nat N :: rat) \<le> of_nat m * of_nat n"
      by (metis of_nat_le_iff of_nat_mult)
    then have hi: "(of_nat N :: rat) / of_nat n \<le> of_int (int m)"
      using nr by (simp add: pos_divide_le_eq)
    have "\<lceil>(of_nat N :: rat) / of_nat n\<rceil> = int m"
      using lo hi by (rule ceiling_unique)
    then show ?thesis by (simp add: c)
  qed
  have cat: "concat cs = lst"
    using ceil_div_bounds(1)[OF npos, of N]
    by (simp add: cs_def concat_take_chunks m_def N_def)
  have full: "int (length (cs ! k)) = c" if "Suc k < length cs" for k
  proof -
    have k: "k < m" "Suc k \<le> m - 1" using that len by simp_all
    have "0 < N" using k by (cases "N = 0") (simp_all add: m_def npos)
    then have "(m - 1) * n < N" unfolding m_def by (rule ceil_div_bounds(2)[OF npos])
    moreover have "Suc k * n \<le> (m - 1) * n" using k(2) by (rule mult_le_mono1)
    ultimately have "k * n + n \<le> N" by simp
    then show ?thesis using k(1) by (simp add: cs_def c N_def)
  qed
  have lst: "int (length (last cs)) =
      (if int (length lst) mod c = 0 then c else int (length lst) mod c)" if "cs \<noteq> []"
  proof -
    have mpos: "0 < m" using that len by auto
    have Npos: "0 < N" using mpos by (cases "N = 0") (simp_all add: m_def npos)
    have "last cs = take n (drop ((m - 1) * n) lst)"
      using mpos by (simp add: cs_def last_map)
    then have "length (last cs) = min n (N - (m - 1) * n)" by (simp add: N_def min.commute)
    also have "N - (m - 1) * n = (if N mod n = 0 then n else N mod n)"
      unfolding m_def by (rule ceil_div_bounds(4)[OF npos Npos])
    also have "min n (if N mod n = 0 then n else N mod n) = (if N mod n = 0 then n else N mod n)"
      using mod_less_divisor[OF npos, of N] by (simp add: min_def)
    finally have "int (length (last cs)) = (if N mod n = 0 then int n else int (N mod n))"
      by simp
    moreover have "int N mod int n = int (N mod n)" by (simp add: zmod_int)
    ultimately show ?thesis
      by (simp add: c flip: N_def)
  qed
  from eq len cnt cat full lst show ?thesis
    by (intro exI[of _ cs]) (simp add: N_def)
qed

theorem chunks_partition_witness:
  "(0::int) < 2 \<and> chunks [10, 11, 12, 13, 14 :: int] 2 = Inr [[10, 11], [12, 13], [14]]
   \<and> (\<exists>cs. chunks [10, 11, 12, 13, 14 :: int] 2 = Inr cs \<and> length cs = 3
          \<and> concat cs = [10, 11, 12, 13, 14] \<and> length (last cs) = 1)
   \<and> 0 < CHUNK_SIZE
   \<and> (\<exists>cs. chunks [10, 11, 12, 13, 14 :: int] CHUNK_SIZE = Inr cs
          \<and> concat cs = [10, 11, 12, 13, 14])"
proof -
  have pos: "(0::int) < 2" by simp
  have ev: "chunks [10, 11, 12, 13, 14 :: int] 2 = Inr [[10, 11], [12, 13], [14]]"
    by (simp add: chunks_pos upt_rec)
  from chunks_partition [OF pos, of "[10, 11, 12, 13, 14 :: int]"]
  obtain cs where cs: "chunks [10, 11, 12, 13, 14 :: int] 2 = Inr cs" "concat cs = [10, 11, 12, 13, 14]"
    by blast
  with ev have "cs = [[10, 11], [12, 13], [14]]" by simp
  with pos ev cs have a: "(0::int) < 2 \<and> chunks [10, 11, 12, 13, 14 :: int] 2 = Inr [[10, 11], [12, 13], [14]]
   \<and> (\<exists>cs. chunks [10, 11, 12, 13, 14 :: int] 2 = Inr cs \<and> length cs = 3
          \<and> concat cs = [10, 11, 12, 13, 14] \<and> length (last cs) = 1)" by simp
  have pos': "0 < CHUNK_SIZE" by (simp add: CHUNK_SIZE_def)
  from chunks_partition [OF pos', of "[10, 11, 12, 13, 14 :: int]"]
  have b: "\<exists>cs. chunks [10, 11, 12, 13, 14 :: int] CHUNK_SIZE = Inr cs
          \<and> concat cs = [10, 11, 12, 13, 14]" by blast
  from a pos' b show ?thesis by blast
qed

text \<open>
  Claim C8, as stated, fails: a negative chunk size is no error. \<^verbatim>\<open>range(0, n, -1)\<close> is empty,
  so \<open>chunks\<close> returns normally, with no chunk.
\<close>

theorem chunks_negative_no_error_counterexample:
  "chunks [1, 2, 3 :: int] (- 1) = Inr []"
  by (simp add: chunks_def py_range_def)

text \<open>
  Claim C8, amended. For a chunk size \<open>C \<le> 0\<close>: when \<open>C = 0\<close> the partitioner raises
  \<^verbatim>\<open>ValueError\<close> (from \<^verbatim>\<open>range\<close>, as the generator is consumed and so before any fetch
  starts); when \<open>C < 0\<close> it raises nothing and returns no chunk at all. In both cases no chunk
  is produced, so no block fetch is attempted.
\<close>

theorem chunks_nonpositive:
  assumes "c \<le> 0"
  shows "chunks lst c = (if c = 0 then Inl ValueError else Inr [])"
proof (cases "c = 0")
  case True
  then show ?thesis by (simp add: chunks_def py_range_def)
next
  case False
  with assms have neg: "c < 0" by simp
  have "(0 - int (length lst) - c - 1) div (- c) \<le> 0"
  proof -
    have "0 - int (length lst) - c - 1 < - c" by simp
    moreover have "0 < - c" using neg by simp
    ultimately show ?thesis
      by (smt (verit) div_pos_neg_trivial int_div_less_self pos_imp_zdiv_neg_iff zdiv_eq_0_iff)
  qed
  then show ?thesis using neg by (simp add: chunks_def py_range_def)
qed

theorem chunks_nonpositive_witness:
  "(- 3 :: int) \<le> 0 \<and> chunks [1, 2, 3 :: int] (- 3) = Inr []
   \<and> (0 :: int) \<le> 0 \<and> chunks [1, 2, 3 :: int] 0 = Inl ValueError"
  using chunks_nonpositive [of "- 3" "[1, 2, 3 :: int]"] chunks_nonpositive [of 0 "[1, 2, 3 :: int]"]
  by simp

section \<open>Verification: the input file\<close>

lemma digits_result_error: "digits_result neg nz b s = Inl e \<Longrightarrow> e = ValueError"
  by (simp add: digits_result_def Let_def split: if_splits)

lemma int_of_str_error: "int_of_str s b = Inl e \<Longrightarrow> e = ValueError"
  unfolding int_of_str_def Let_def by (rule digits_result_error)

lemma block_list_of_dropped:
  "block_list_of content = block_list_of (filter line_passes content)"
proof (induction content)
  case Nil
  show ?case by simp
next
  case (Cons x xs)
  show ?case
  proof (cases "line_passes x")
    case True
    then show ?thesis 
      apply (simp only: block_list_of.simps filter.simps if_True)
      apply (simp only: Cons.IH [symmetric])
      done
  next
    case False
    then show ?thesis
      apply (simp only: block_list_of.simps filter.simps if_False)
      apply (rule Cons.IH)
      done
  qed
qed

lemma block_list_of_Inr:
  "block_list_of content = Inr bl \<Longrightarrow>
   map Inr bl = map (\<lambda>x. int_of_str x 10) (filter line_passes content)"
proof (induction content arbitrary: bl)
  case Nil
  then show ?case by simp
next
  case (Cons x xs)
  show ?case
  proof (cases "line_passes x")
    case False
    with Cons show ?thesis by simp
  next
    case True
    with Cons.prems obtain n ns where
      n: "int_of_str x 10 = Inr n" and ns: "block_list_of xs = Inr ns" and bl: "bl = n # ns"
      by (auto split: sum.splits)
    from Cons.IH [OF ns] n bl True show ?thesis by simp
  qed
qed

lemma block_list_of_Inl:
  "block_list_of content = Inl e \<Longrightarrow>
   e = ValueError \<and> (\<exists>x \<in> set (filter line_passes content). int_of_str x 10 = Inl ValueError)"
proof (induction content)
  case Nil
  then show ?case by simp
next
  case (Cons x xs)
  show ?case
  proof (cases "line_passes x")
    case False
    with Cons show ?thesis by simp
  next
    case True
    show ?thesis
    proof (cases "int_of_str x 10")
      case (Inl e')
      then have "e' = ValueError" by (rule int_of_str_error)
      with Inl True Cons.prems show ?thesis by simp
    next
      case (Inr n)
      with True Cons.prems have "block_list_of xs = Inl e" by (simp split: sum.splits)
      from Cons.IH [OF this] True show ?thesis by auto
    qed
  qed
qed

text \<open>
  Claim C10, as stated, fails: the line \<^verbatim>\<open>abc\<close> has a stripped content that is non-empty
  and at most 8 characters long, and contributes no block number. \<^verbatim>\<open>int(x)\<close> raises
  \<^verbatim>\<open>ValueError\<close> on it, which ends the comprehension: no line of the file contributes,
  the lines \<^verbatim>\<open>12\<close> and \<^verbatim>\<open>13\<close> included.
\<close>

theorem kept_line_raises_counterexample:
  "py_strip ''abc'' \<noteq> [] \<and> length (py_strip ''abc'') \<le> 8
   \<and> block_list_of [''12'' @ [CHR 0x0A], ''abc'' @ [CHR 0x0A], ''13'' @ [CHR 0x0A]]
       = Inl ValueError"
  by code_simp

text \<open>
  Claim C10, amended. The block list read from an input file is made from the lines whose
  stripped content is non-empty and at most 8 characters long, and from no other line: a
  line whose stripped content is longer than 8 characters (or empty) is dropped without
  being parsed, so the result is that of the file without it. When \<^verbatim>\<open>int(x)\<close> succeeds on
  every line that passed the filter, the list holds exactly one block number for each of
  them, in the order of the file; when it raises \<^verbatim>\<open>ValueError\<close> on one of them, the
  comprehension raises it and no line contributes.
\<close>

theorem block_list_of_filter:
  "block_list_of content =
     block_list_of (filter (\<lambda>x. py_strip x \<noteq> [] \<and> length (py_strip x) \<le> 8) content)
   \<and> (case block_list_of content of
        Inr bl \<Rightarrow>
          map Inr bl =
            map (\<lambda>x. int_of_str x 10)
              (filter (\<lambda>x. py_strip x \<noteq> [] \<and> length (py_strip x) \<le> 8) content)
      | Inl e \<Rightarrow>
          e = ValueError \<and>
          (\<exists>x \<in> set (filter (\<lambda>x. py_strip x \<noteq> [] \<and> length (py_strip x) \<le> 8) content).
             int_of_str x 10 = Inl ValueError))"
proof -
  have f: "(\<lambda>x. py_strip x \<noteq> [] \<and> length (py_strip x) \<le> 8) = line_passes"
    by (rule ext) (simp add: line_passes_def)
  show ?thesis
    unfolding f
  proof (intro conjI)
    show "block_list_of content = block_list_of (filter line_passes content)"
      by (rule block_list_of_dropped)
    show "case block_list_of content of
            Inl e \<Rightarrow> e = ValueError \<and> (\<exists>x\<in>set (filter line_passes content). int_of_str x 10 = Inl ValueError)
          | Inr bl \<Rightarrow> map Inr bl = map (\<lambda>x. int_of_str x 10) (filter line_passes content)"
    proof (cases "block_list_of content")
      case (Inl e)
      from block_list_of_Inl [OF this] Inl show ?thesis by simp
    next
      case (Inr bl)
      from block_list_of_Inr [OF this] Inr show ?thesis by simp
    qed
  qed
qed

theorem block_list_of_filter_witness:
  "block_list_of [''12'' @ [CHR 0x0A], [CHR 0x0A], ''123456789'' @ [CHR 0x0A], ''  7  ''] = Inr [12, 7]
   \<and> map (\<lambda>x. int_of_str x 10)
        (filter (\<lambda>x. py_strip x \<noteq> [] \<and> length (py_strip x) \<le> 8)
           [''12'' @ [CHR 0x0A], [CHR 0x0A], ''123456789'' @ [CHR 0x0A], ''  7  '']) = [Inr 12, Inr 7]"
proof -
  have ev: "block_list_of [''12'' @ [CHR 0x0A], [CHR 0x0A], ''123456789'' @ [CHR 0x0A], ''  7  ''] = Inr [12, 7]"
    by code_simp
  from block_list_of_filter [of "[''12'' @ [CHR 0x0A], [CHR 0x0A], ''123456789'' @ [CHR 0x0A], ''  7  '']"]
  show ?thesis unfolding ev by simp
qed

section \<open>Verification: the normalizer\<close>

lemma and_then_Inr_iff: "and_then r f = Inr y \<longleftrightarrow> (\<exists>x. r = Inr x \<and> f x = Inr y)"
  by (cases r) (simp_all add: and_then_def)

lemma getitem_setitem:
  "setitem obj k v = Inr obj' \<Longrightarrow> getitem obj' k' = (if k' = k then Inr v else getitem obj k')"
  by (cases obj) (auto simp: setitem_def getitem_def update_conv')

lemma convert_field_Inr:
  assumes "convert_field b k = Inr b'"
  shows "\<exists>n. and_then (getitem b k) py_int0 = Inr n \<and>
             (\<forall>k'. getitem b' k' = (if k' = k then Inr (PyInt n) else getitem b k'))"
proof -
  from assms obtain raw n where raw: "getitem b k = Inr raw" and n: "py_int0 raw = Inr n"
    and set: "setitem b k (PyInt n) = Inr b'"
    by (auto simp: convert_field_def and_then_Inr_iff)
  have "and_then (getitem b k) py_int0 = Inr n" using raw n by (simp add: and_then_def)
  moreover have "getitem b' k' = (if k' = k then Inr (PyInt n) else getitem b k')" for k'
    by (rule getitem_setitem [OF set])
  ultimately show ?thesis by blast
qed

lemma stamp_tx_steps:
  assumes "stamp_tx ts tx = Inr tx'"
  shows "\<exists>raw_nb nb tx1 tx2 raw_value wei ether.
           getitem tx ''blockNumber'' = Inr raw_nb \<and> py_int0 raw_nb = Inr nb
         \<and> setitem tx ''blockNumber'' (PyInt nb) = Inr tx1
         \<and> setitem tx1 ''blockTimestamp'' ts = Inr tx2
         \<and> getitem tx2 ''value'' = Inr raw_value \<and> py_int0 raw_value = Inr wei
         \<and> truediv (PyInt wei) WEI_ETH_FACTOR = Inr ether
         \<and> setitem tx2 ''value'' ether = Inr tx'"
  using assms unfolding stamp_tx_def and_then_Inr_iff by blast

lemma stamp_tx_Inr:
  assumes "stamp_tx ts tx = Inr tx'"
  shows "\<exists>nb wei ether.
           and_then (getitem tx ''blockNumber'') py_int0 = Inr nb
         \<and> and_then (getitem tx ''value'') py_int0 = Inr wei
         \<and> truediv (PyInt wei) WEI_ETH_FACTOR = Inr ether
         \<and> getitem tx' ''blockNumber'' = Inr (PyInt nb)
         \<and> getitem tx' ''blockTimestamp'' = Inr ts
         \<and> getitem tx' ''value'' = Inr ether"
proof -
  from stamp_tx_steps [OF assms] obtain raw_nb nb tx1 tx2 raw_value wei ether where
    a: "getitem tx ''blockNumber'' = Inr raw_nb" "py_int0 raw_nb = Inr nb"
    and s1: "setitem tx ''blockNumber'' (PyInt nb) = Inr tx1"
    and s2: "setitem tx1 ''blockTimestamp'' ts = Inr tx2"
    and b: "getitem tx2 ''value'' = Inr raw_value" "py_int0 raw_value = Inr wei"
    and d: "truediv (PyInt wei) WEI_ETH_FACTOR = Inr ether"
    and s3: "setitem tx2 ''value'' ether = Inr tx'"
    by blast
  note g1 = getitem_setitem [OF s1] and g2 = getitem_setitem [OF s2] and g3 = getitem_setitem [OF s3]
  have v: "getitem tx ''value'' = Inr raw_value" using b(1) by (simp add: g1 g2)
  have "and_then (getitem tx ''blockNumber'') py_int0 = Inr nb" using a by (simp add: and_then_def)
  moreover have "and_then (getitem tx ''value'') py_int0 = Inr wei" using v b(2) by (simp add: and_then_def)
  moreover have "getitem tx' ''blockNumber'' = Inr (PyInt nb)" by (simp add: g1 g2 g3)
  moreover have "getitem tx' ''blockTimestamp'' = Inr ts" by (simp add: g1 g2 g3)
  moreover have "getitem tx' ''value'' = Inr ether" by (simp add: g3)
  ultimately show ?thesis using d by blast
qed

lemma stamp_tx_other_keys:
  assumes "stamp_tx ts tx = Inr tx'"
    and "k \<noteq> ''blockNumber''" "k \<noteq> ''blockTimestamp''" "k \<noteq> ''value''"
  shows "getitem tx' k = getitem tx k"
proof -
  from stamp_tx_steps [OF assms(1)] obtain nb tx1 tx2 ether where
    s1: "setitem tx ''blockNumber'' (PyInt nb) = Inr tx1"
    and s2: "setitem tx1 ''blockTimestamp'' ts = Inr tx2"
    and s3: "setitem tx2 ''value'' ether = Inr tx'"
    by blast
  show ?thesis
    using assms(2-4)
    by (simp add: getitem_setitem [OF s1] getitem_setitem [OF s2] getitem_setitem [OF s3])
qed

lemma tx_loop_Cons_Inr:
  assumes "tx_loop ts (tx # txs) hs s acts = (Inr res, acts')"
  shows "\<exists>tx' v s1 h.
           stamp_tx ts tx = Inr tx' \<and> getitem tx' ''value'' = Inr v \<and> add s v = Inr s1
         \<and> getitem tx' ''hash'' = Inr h
         \<and> tx_loop ts txs (hs @ [h]) s1
              (acts @ [\<lparr>act_index = TX_INDEX_NAME, act_type = ''tx'', act_id = h, act_source = tx'\<rparr>])
            = (Inr res, acts')"
proof -
  define r where "r = and_then (stamp_tx ts tx) (\<lambda>tx'.
           and_then (getitem tx' ''value'') (\<lambda>v.
           and_then (add s v) (\<lambda>tx_value_sum'.
           and_then (getitem tx' ''hash'') (\<lambda>h.
           Inr (tx', tx_value_sum', h)))))"
  show ?thesis
  proof (cases r)
    case (Inl e)
    with assms show ?thesis by (simp add: r_def [symmetric])
  next
    case (Inr t)
    obtain tx' s1 h where t: "t = (tx', s1, h)" by (cases t) auto
    from Inr t have "\<exists>v. stamp_tx ts tx = Inr tx' \<and> getitem tx' ''value'' = Inr v \<and> add s v = Inr s1
         \<and> getitem tx' ''hash'' = Inr h"
      unfolding r_def and_then_Inr_iff by auto
    moreover from assms Inr t have "tx_loop ts txs (hs @ [h]) s1
              (acts @ [\<lparr>act_index = TX_INDEX_NAME, act_type = ''tx'', act_id = h, act_source = tx'\<rparr>])
            = (Inr res, acts')"
      by (simp add: r_def [symmetric])
    ultimately show ?thesis by blast
  qed
qed

lemma tx_loop_Inr:
  "tx_loop ts txs hs s acts = (Inr (hs', s'), acts') \<Longrightarrow>
   \<exists>new vs. acts' = acts @ new \<and> hs' = hs @ map act_id new
     \<and> list_all2 (tx_action_ok ts) txs new
     \<and> map (\<lambda>a. getitem (act_source a) ''value'') new = map Inr vs
     \<and> sum_from s vs = Inr s'"
proof (induction txs arbitrary: hs s acts)
  case Nil
  then show ?case by (auto intro: exI[of _ "[]"])
next
  case (Cons tx txs)
  from tx_loop_Cons_Inr [OF Cons.prems] obtain tx' v s1 h where
    st: "stamp_tx ts tx = Inr tx'" and v: "getitem tx' ''value'' = Inr v"
    and ad: "add s v = Inr s1" and h: "getitem tx' ''hash'' = Inr h"
    and rest: "tx_loop ts txs (hs @ [h]) s1
        (acts @ [\<lparr>act_index = TX_INDEX_NAME, act_type = ''tx'', act_id = h, act_source = tx'\<rparr>])
        = (Inr (hs', s'), acts')"
    by blast
  define a where "a = \<lparr>act_index = TX_INDEX_NAME, act_type = ''tx'', act_id = h, act_source = tx'\<rparr>"
  from Cons.IH [OF rest] obtain new vs where
    n1: "acts' = (acts @ [a]) @ new" and n2: "hs' = (hs @ [h]) @ map act_id new"
    and n3: "list_all2 (tx_action_ok ts) txs new"
    and n4: "map (\<lambda>a. getitem (act_source a) ''value'') new = map Inr vs"
    and n5: "sum_from s1 vs = Inr s'"
    unfolding a_def by blast
  have ok: "tx_action_ok ts tx a" using st h by (simp add: tx_action_ok_def a_def)
  have "acts' = acts @ (a # new)" using n1 by simp
  moreover have "hs' = hs @ map act_id (a # new)" using n2 by (simp add: a_def)
  moreover have "list_all2 (tx_action_ok ts) (tx # txs) (a # new)" using ok n3 by simp
  moreover have "map (\<lambda>a. getitem (act_source a) ''value'') (a # new) = map Inr (v # vs)"
    using n4 v by (simp add: a_def)
  moreover have "sum_from s (v # vs) = Inr s'" using ad n5 by (simp add: and_then_def)
  ultimately show ?case by blast
qed

lemma finish_block_Inr:
  assumes "finish_block block hashes block_nb ts tot = Inr block'"
  shows "getitem block' ''transactions'' = Inr (PyList hashes)
       \<and> getitem block' ''number'' = Inr (PyInt block_nb)
       \<and> getitem block' ''timestamp'' = Inr ts
       \<and> getitem block' ''transactionCount'' = Inr (PyInt (int (length hashes)))
       \<and> getitem block' ''txValueSum'' = Inr tot
       \<and> (\<exists>n. and_then (getitem block ''gasLimit'') py_int0 = Inr n
              \<and> getitem block' ''gasLimit'' = Inr (PyInt n))
       \<and> (\<exists>n. and_then (getitem block ''gasUsed'') py_int0 = Inr n
              \<and> getitem block' ''gasUsed'' = Inr (PyInt n))
       \<and> (\<exists>n. and_then (getitem block ''size'') py_int0 = Inr n
              \<and> getitem block' ''size'' = Inr (PyInt n))"
proof -
  from assms obtain b1 b2 b3 b4 b5 b6 b7 where
    s1: "setitem block ''transactions'' (PyList hashes) = Inr b1"
    and s2: "setitem b1 ''number'' (PyInt block_nb) = Inr b2"
    and s3: "setitem b2 ''timestamp'' ts = Inr b3"
    and c4: "convert_field b3 ''gasLimit'' = Inr b4"
    and c5: "convert_field b4 ''gasUsed'' = Inr b5"
    and c6: "convert_field b5 ''size'' = Inr b6"
    and s7: "setitem b6 ''transactionCount'' (PyInt (int (length hashes))) = Inr b7"
    and s8: "setitem b7 ''txValueSum'' tot = Inr block'"
    unfolding finish_block_def and_then_Inr_iff by blast
  note g1 = getitem_setitem [OF s1] and g2 = getitem_setitem [OF s2]
    and g3 = getitem_setitem [OF s3] and g7 = getitem_setitem [OF s7]
    and g8 = getitem_setitem [OF s8]
  from convert_field_Inr [OF c4] obtain n4 where
    r4: "and_then (getitem b3 ''gasLimit'') py_int0 = Inr n4"
    and g4: "\<And>k'. getitem b4 k' = (if k' = ''gasLimit'' then Inr (PyInt n4) else getitem b3 k')"
    by blast
  from convert_field_Inr [OF c5] obtain n5 where
    r5: "and_then (getitem b4 ''gasUsed'') py_int0 = Inr n5"
    and g5: "\<And>k'. getitem b5 k' = (if k' = ''gasUsed'' then Inr (PyInt n5) else getitem b4 k')"
    by blast
  from convert_field_Inr [OF c6] obtain n6 where
    r6: "and_then (getitem b5 ''size'') py_int0 = Inr n6"
    and g6: "\<And>k'. getitem b6 k' = (if k' = ''size'' then Inr (PyInt n6) else getitem b5 k')"
    by blast
  have "getitem block' ''transactions'' = Inr (PyList hashes)"
    by (simp add: g1 g2 g3 g4 g5 g6 g7 g8)
  moreover have "getitem block' ''number'' = Inr (PyInt block_nb)"
    by (simp add: g2 g3 g4 g5 g6 g7 g8)
  moreover have "getitem block' ''timestamp'' = Inr ts"
    by (simp add: g3 g4 g5 g6 g7 g8)
  moreover have "getitem block' ''transactionCount'' = Inr (PyInt (int (length hashes)))"
    by (simp add: g7 g8)
  moreover have "getitem block' ''txValueSum'' = Inr tot"
    by (simp add: g8)
  moreover have "and_then (getitem block ''gasLimit'') py_int0 = Inr n4
       \<and> getitem block' ''gasLimit'' = Inr (PyInt n4)"
    using r4 by (simp add: g1 g2 g3 g4 g5 g6 g7 g8)
  moreover have "and_then (getitem block ''gasUsed'') py_int0 = Inr n5
       \<and> getitem block' ''gasUsed'' = Inr (PyInt n5)"
    using r5 by (simp add: g1 g2 g3 g4 g5 g6 g7 g8)
  moreover have "and_then (getitem block ''size'') py_int0 = Inr n6
       \<and> getitem block' ''size'' = Inr (PyInt n6)"
    using r6 by (simp add: g1 g2 g3 g4 g5 g6 g7 g8)
  ultimately show ?thesis by blast
qed

lemma process_block_Inr:
  assumes "process_block response acts = (Inr u, acts')"
  shows "\<exists>block transactions block_nb ts txs hashes tot new block'.
           getitem response ''result'' = Inr block
         \<and> getitem block ''transactions'' = Inr transactions
         \<and> and_then (getitem block ''number'') py_int0 = Inr block_nb
         \<and> and_then (and_then (getitem block ''timestamp'') py_int0) fromtimestamp = Inr ts
         \<and> iterate transactions = Inr txs
         \<and> tx_loop ts txs [] (PyInt 0) acts = (Inr (hashes, tot), acts @ new)
         \<and> finish_block block hashes block_nb ts tot = Inr block'
         \<and> acts' = acts @ new @
               [\<lparr>act_index = B_INDEX_NAME, act_type = ''b'', act_id = PyInt block_nb,
                 act_source = block'\<rparr>]"
proof -
  define r where "r = and_then (getitem response ''result'') (\<lambda>block.
           and_then (getitem block ''transactions'') (\<lambda>transactions.
           and_then (and_then (getitem block ''number'') py_int0) (\<lambda>block_nb.
           and_then (and_then (and_then (getitem block ''timestamp'') py_int0) fromtimestamp)
             (\<lambda>block_timestamp.
           and_then (iterate transactions) (\<lambda>txs.
           Inr (block, block_nb, block_timestamp, txs))))))"
  have pb: "process_block response acts =
     (case r of
        Inl e \<Rightarrow> (Inl e, acts)
      | Inr (block, block_nb, block_timestamp, txs) \<Rightarrow>
          (case tx_loop block_timestamp txs [] (PyInt 0) acts of
             (Inl e, actions1) \<Rightarrow> (Inl e, actions1)
           | (Inr (tx_hashes, tx_value_sum), actions1) \<Rightarrow>
               (case finish_block block tx_hashes block_nb block_timestamp tx_value_sum of
                  Inl e \<Rightarrow> (Inl e, actions1)
                | Inr block' \<Rightarrow>
                    (Inr (),
                     actions1 @
                       [\<lparr>act_index = B_INDEX_NAME, act_type = ''b'', act_id = PyInt block_nb,
                         act_source = block'\<rparr>]))))"
    unfolding process_block_def r_def ..
  show ?thesis
  proof (cases r)
    case (Inl e)
    with assms pb show ?thesis by simp
  next
    case (Inr t)
    obtain block block_nb ts txs where t: "t = (block, block_nb, ts, txs)" by (cases t) auto
    from Inr t have "r = Inr (block, block_nb, ts, txs)" by simp
    then have hd: "\<exists>transactions. getitem response ''result'' = Inr block
         \<and> getitem block ''transactions'' = Inr transactions
         \<and> and_then (getitem block ''number'') py_int0 = Inr block_nb
         \<and> and_then (and_then (getitem block ''timestamp'') py_int0) fromtimestamp = Inr ts
         \<and> iterate transactions = Inr txs"
      unfolding r_def by (auto simp: and_then_Inr_iff)
    obtain lr acts1 where l: "tx_loop ts txs [] (PyInt 0) acts = (lr, acts1)" by (cases "tx_loop ts txs [] (PyInt 0) acts") auto
    show ?thesis
    proof (cases lr)
      case (Inl e)
      with assms pb Inr t l show ?thesis by simp
    next
      case lrI: (Inr p)
      obtain hashes tot where p: "p = (hashes, tot)" by (cases p) auto
      from tx_loop_Inr [OF l [unfolded lrI p]] obtain new where new: "acts1 = acts @ new" by blast
      show ?thesis
      proof (cases "finish_block block hashes block_nb ts tot")
        case (Inl e)
        with assms pb Inr t l lrI p show ?thesis by simp
      next
        case fb: (Inr block')
        from assms pb Inr t l lrI p fb new
        have "acts' = acts @ new @
               [\<lparr>act_index = B_INDEX_NAME, act_type = ''b'', act_id = PyInt block_nb,
                 act_source = block'\<rparr>]" by simp
        with hd l lrI p new fb show ?thesis by blast
      qed
    qed
  qed
qed

lemma DBL_OVERFLOW_eq: "DBL_OVERFLOW = 2 ^ 1024"
  by (simp add: DBL_OVERFLOW_def)

lemma scenario_eval:
  "process_block scenario_response [] =
     (Inr (),
      [\<lparr>act_index = ''ethereum-transaction'', act_type = ''tx'', act_id = PyStr ''0xaa'',
        act_source = PyDict
          [(''hash'', PyStr ''0xaa''),
           (''blockNumber'', PyInt 100),
           (''value'', PyFloat (Finite 1)),
           (''blockTimestamp'', PyDatetime 100000000)]\<rparr>,
       \<lparr>act_index = ''ethereum-block'', act_type = ''b'', act_id = PyInt 100,
        act_source = PyDict
          [(''number'', PyInt 100),
           (''timestamp'', PyDatetime 100000000),
           (''gasLimit'', PyInt 8000000),
           (''gasUsed'', PyInt 4000000),
           (''size'', PyInt 10000),
           (''transactions'', PyList [PyStr ''0xaa'']),
           (''transactionCount'', PyInt 1),
           (''txValueSum'', PyFloat (Finite 1))]\<rparr>])"
  by code_simp

text \<open>
  Claim C2, amended. Normalizing the raw block of the scenario yields a normalized block
  with number 100, gasLimit 8000000 (the wire value \<^verbatim>\<open>0x7a1200\<close>), gasUsed 4000000, size
  10000, transactionCount 1, txValueSum 1.0 and transactions \<^verbatim>\<open>["0xaa"]\<close>, and one
  normalized transaction with hash \<^verbatim>\<open>0xaa\<close>, blockNumber 100 and value 1.0. The
  transaction's action comes first in the list, the block's action last.
\<close>

theorem process_block_scenario:
  "process_block scenario_response [] =
     (Inr (),
      [\<lparr>act_index = ''ethereum-transaction'', act_type = ''tx'', act_id = PyStr ''0xaa'',
        act_source = PyDict
          [(''hash'', PyStr ''0xaa''),
           (''blockNumber'', PyInt 100),
           (''value'', PyFloat (Finite 1)),
           (''blockTimestamp'', PyDatetime 100000000)]\<rparr>,
       \<lparr>act_index = ''ethereum-block'', act_type = ''b'', act_id = PyInt 100,
        act_source = PyDict
          [(''number'', PyInt 100),
           (''timestamp'', PyDatetime 100000000),
           (''gasLimit'', PyInt 8000000),
           (''gasUsed'', PyInt 4000000),
           (''size'', PyInt 10000),
           (''transactions'', PyList [PyStr ''0xaa'']),
           (''transactionCount'', PyInt 1),
           (''txValueSum'', PyFloat (Finite 1))]\<rparr>])"
  by (rule scenario_eval)

text \<open>
  Claim C2, as stated, fails on one figure: the gasLimit of the normalized block is
  8000000, not 8000512.
\<close>

theorem process_block_scenario_gasLimit_counterexample:
  "getitem (act_source (last (snd (process_block scenario_response [])))) ''gasLimit''
     = Inr (PyInt 8000000)
   \<and> getitem (act_source (last (snd (process_block scenario_response [])))) ''gasLimit''
     \<noteq> Inr (PyInt 8000512)"
  by (simp add: scenario_eval getitem_def)

lemma truediv_wei:
  assumes "truediv (PyInt wei) WEI_ETH_FACTOR = Inr ether"
  shows "\<exists>x. float_of_int wei = Inr (Finite x)
           \<and> ether = PyFloat (round_double (x / 1000000000000000000))"
proof (cases "round_double (of_int wei)")
  case (Finite x)
  then have "float_of_int wei = Inr (Finite x)" by (simp add: float_of_int_def)
  with assms show ?thesis
    by (auto simp: truediv_def WEI_ETH_FACTOR_def and_then_def float_div_def)
qed (use assms in \<open>simp_all add: truediv_def WEI_ETH_FACTOR_def and_then_def float_of_int_def\<close>)

lemma tx_values_float:
  "list_all2 (tx_action_ok ts) txs new \<Longrightarrow>
   \<exists>fs. map (\<lambda>a. getitem (act_source a) ''value'') new = map (\<lambda>f. Inr (PyFloat f)) fs"
proof (induction rule: list_all2_induct)
  case Nil
  show ?case by simp
next
  case (Cons tx txs a new)
  from Cons.hyps(1) have st: "stamp_tx ts tx = Inr (act_source a)"
    by (simp add: tx_action_ok_def)
  from stamp_tx_Inr [OF st] obtain wei ether where
    c: "truediv (PyInt wei) WEI_ETH_FACTOR = Inr ether"
    and f: "getitem (act_source a) ''value'' = Inr ether"
    by blast
  from truediv_wei [OF c] obtain q where q: "ether = PyFloat q" by blast
  from Cons.IH obtain fs where
    fs: "map (\<lambda>a. getitem (act_source a) ''value'') new = map (\<lambda>f. Inr (PyFloat f)) fs"
    by blast
  have "map (\<lambda>a. getitem (act_source a) ''value'') (a # new) = map (\<lambda>f. Inr (PyFloat f)) (q # fs)"
    using f q fs by simp
  then show ?case by blast
qed

lemma map_Inr_eq:
  "map (\<lambda>f. Inr (g f)) fs = map Inr vs \<Longrightarrow> vs = map g fs"
  by (induction fs arbitrary: vs) auto

lemma float_of_int_zero: "float_of_int 0 = Inr (Finite 0)"
  by (simp add: float_of_int_def round_double_def)

lemma sum_from_floats:
  "sum_from (PyFloat a) (map PyFloat fs) = Inr (PyFloat (foldl float_add a fs))"
  by (induction fs arbitrary: a) (simp_all add: add_def and_then_def)

lemma sum_from_zero:
  "sum_from (PyInt 0) (map PyFloat fs) =
     Inr (if fs = [] then PyInt 0 else PyFloat (foldl float_add (Finite 0) fs))"
proof (cases fs)
  case Nil
  then show ?thesis by simp
next
  case (Cons f fs')
  then show ?thesis
    by (simp add: add_def and_then_def float_of_int_zero sum_from_floats)
qed

lemma three_tx_eval:
  "process_block three_tx_response [] =
     (Inr (),
      [\<lparr>act_index = ''ethereum-transaction'', act_type = ''tx'', act_id = PyStr ''0xaa'',
        act_source = PyDict
          [(''hash'', PyStr ''0xaa''),
           (''blockNumber'', PyInt 100),
           (''value'', PyFloat (Finite 1)),
           (''blockTimestamp'', PyDatetime 100000000)]\<rparr>,
       \<lparr>act_index = ''ethereum-transaction'', act_type = ''tx'', act_id = PyStr ''0xbb'',
        act_source = PyDict
          [(''hash'', PyStr ''0xbb''),
           (''blockNumber'', PyInt 100),
           (''value'', PyFloat (Finite 2)),
           (''blockTimestamp'', PyDatetime 100000000)]\<rparr>,
       \<lparr>act_index = ''ethereum-transaction'', act_type = ''tx'', act_id = PyStr ''0xcc'',
        act_source = PyDict
          [(''hash'', PyStr ''0xcc''),
           (''blockNumber'', PyInt 100),
           (''value'', PyFloat (Finite (1 / 2))),
           (''blockTimestamp'', PyDatetime 100000000)]\<rparr>,
       \<lparr>act_index = ''ethereum-block'', act_type = ''b'', act_id = PyInt 100,
        act_source = PyDict
          [(''number'', PyInt 100),
           (''timestamp'', PyDatetime 100000000),
           (''gasLimit'', PyInt 8000000),
           (''gasUsed'', PyInt 4000000),
           (''size'', PyInt 10000),
           (''transactions'', PyList [PyStr ''0xaa'', PyStr ''0xbb'', PyStr ''0xcc'']),
           (''transactionCount'', PyInt 3),
           (''txValueSum'', PyFloat (Finite (7 / 2)))]\<rparr>])"
  by code_simp

text \<open>
  Claim C3. When \<open>process_block\<close> returns normally it has appended, after the actions that
  were there, one action of type \<^verbatim>\<open>tx\<close> per transaction and then the block's action of
  type \<^verbatim>\<open>b\<close>. The block's \<^verbatim>\<open>transactions\<close> is the list of the identifiers (hashes) of
  those transaction actions, in order, and its \<^verbatim>\<open>transactionCount\<close> is the length of that
  list. The \<^verbatim>\<open>value\<close> of every one of those normalized transactions is a float, and the
  block's \<^verbatim>\<open>txValueSum\<close> is their sum in double arithmetic, added from \<open>0.0\<close> in the order
  of the transactions (\<open>foldl float_add\<close>); it is the integer \<open>0\<close> when the block has no
  transaction. For the block of three transactions of 1, 2 and 0.5 ether the sum is 3.5,
  not the last value.
\<close>

theorem process_block_aggregates:
  assumes "process_block response acts = (Inr (), acts')"
  shows "\<exists>txs blk fs.
      acts' = acts @ txs @ [blk]
    \<and> list_all (\<lambda>a. act_type a = ''tx'') txs \<and> act_type blk = ''b''
    \<and> getitem (act_source blk) ''transactions'' = Inr (PyList (map act_id txs))
    \<and> getitem (act_source blk) ''transactionCount''
        = Inr (PyInt (int (length (map act_id txs))))
    \<and> map (\<lambda>a. getitem (act_source a) ''value'') txs = map (\<lambda>f. Inr (PyFloat f)) fs
    \<and> getitem (act_source blk) ''txValueSum''
        = Inr (if fs = [] then PyInt 0 else PyFloat (foldl float_add (Finite 0) fs))"
proof -
  from process_block_Inr [OF assms] obtain block block_nb ts txs hashes tot new block' where
    loop: "tx_loop ts txs [] (PyInt 0) acts = (Inr (hashes, tot), acts @ new)"
    and fin: "finish_block block hashes block_nb ts tot = Inr block'"
    and acts': "acts' = acts @ new @
               [\<lparr>act_index = B_INDEX_NAME, act_type = ''b'', act_id = PyInt block_nb,
                 act_source = block'\<rparr>]"
    by blast
  from tx_loop_Inr [OF loop] obtain new' vs where
    n1: "acts @ new = acts @ new'" and n2: "hashes = [] @ map act_id new'"
    and n3: "list_all2 (tx_action_ok ts) txs new'"
    and n4: "map (\<lambda>a. getitem (act_source a) ''value'') new' = map Inr vs"
    and n5: "sum_from (PyInt 0) vs = Inr tot"
    by blast
  from n1 have eq: "new' = new" by simp
  have hs: "hashes = map act_id new" using n2 eq by simp
  have types: "list_all (\<lambda>a. act_type a = ''tx'') new"
    using n3 unfolding eq
    by (auto simp: list_all_iff list_all2_conv_all_nth in_set_conv_nth tx_action_ok_def)
  from tx_values_float [OF n3] obtain fs where
    fs: "map (\<lambda>a. getitem (act_source a) ''value'') new = map (\<lambda>f. Inr (PyFloat f)) fs"
    unfolding eq by blast
  have "map (\<lambda>f. Inr (PyFloat f) :: error + pyval) fs = map Inr vs"
    using n4 fs unfolding eq by simp
  then have vs: "vs = map PyFloat fs" by (rule map_Inr_eq)
  have tot: "tot = (if fs = [] then PyInt 0 else PyFloat (foldl float_add (Finite 0) fs))"
    using n5 unfolding vs sum_from_zero by simp
  from finish_block_Inr [OF fin] have
    f1: "getitem block' ''transactions'' = Inr (PyList hashes)"
    and f2: "getitem block' ''transactionCount'' = Inr (PyInt (int (length hashes)))"
    and f3: "getitem block' ''txValueSum'' = Inr tot"
    by blast+
  define blk where "blk = \<lparr>act_index = B_INDEX_NAME, act_type = ''b'', act_id = PyInt block_nb,
                 act_source = block'\<rparr>"
  show ?thesis
  proof (intro exI conjI)
    show "acts' = acts @ new @ [blk]" using acts' by (simp add: blk_def)
    show "list_all (\<lambda>a. act_type a = ''tx'') new" by (rule types)
    show "act_type blk = ''b''" by (simp add: blk_def)
    show "getitem (act_source blk) ''transactions'' = Inr (PyList (map act_id new))"
      using f1 hs by (simp add: blk_def)
    show "getitem (act_source blk) ''transactionCount''
        = Inr (PyInt (int (length (map act_id new))))"
      using f2 hs by (simp add: blk_def)
    show "map (\<lambda>a. getitem (act_source a) ''value'') new = map (\<lambda>f. Inr (PyFloat f)) fs"
      by (rule fs)
    show "getitem (act_source blk) ''txValueSum''
        = Inr (if fs = [] then PyInt 0 else PyFloat (foldl float_add (Finite 0) fs))"
      using f3 tot by (simp add: blk_def)
  qed
qed

theorem process_block_aggregates_witness:
  "fst (process_block three_tx_response []) = Inr ()
   \<and> length (snd (process_block three_tx_response [])) = 4
   \<and> map (\<lambda>a. getitem (act_source a) ''value'') (butlast (snd (process_block three_tx_response [])))
       = [Inr (PyFloat (Finite 1)), Inr (PyFloat (Finite 2)), Inr (PyFloat (Finite (1 / 2)))]
   \<and> getitem (act_source (last (snd (process_block three_tx_response [])))) ''transactionCount''
       = Inr (PyInt 3)
   \<and> getitem (act_source (last (snd (process_block three_tx_response [])))) ''txValueSum''
       = Inr (PyFloat (foldl float_add (Finite 0) [Finite 1, Finite 2, Finite (1 / 2)]))
   \<and> getitem (act_source (last (snd (process_block three_tx_response [])))) ''txValueSum''
       = Inr (PyFloat (Finite (1 + 2 + 1 / 2)))"
proof -
  obtain acts where ev: "process_block three_tx_response [] = (Inr (), acts)"
    and len: "length acts = 4"
    and vals: "map (\<lambda>a. getitem (act_source a) ''value'') (butlast acts)
       = [Inr (PyFloat (Finite 1)), Inr (PyFloat (Finite 2)), Inr (PyFloat (Finite (1 / 2)))]"
    and cnt: "getitem (act_source (last acts)) ''transactionCount'' = Inr (PyInt 3)"
    and tot: "getitem (act_source (last acts)) ''txValueSum'' = Inr (PyFloat (Finite (1 + 2 + 1 / 2)))"
    by (simp add: three_tx_eval getitem_def)
  from process_block_aggregates [OF ev] obtain txs blk fs where
    a: "acts = [] @ txs @ [blk]"
    and v: "map (\<lambda>a. getitem (act_source a) ''value'') txs = map (\<lambda>f. Inr (PyFloat f)) fs"
    and s: "getitem (act_source blk) ''txValueSum''
        = Inr (if fs = [] then PyInt 0 else PyFloat (foldl float_add (Finite 0) fs))"
    by blast
  from a have bl: "butlast acts = txs" "last acts = blk" by simp_all
  from v vals bl have "map (\<lambda>f. Inr (PyFloat f) :: error + pyval) fs
       = map (\<lambda>f. Inr (PyFloat f)) [Finite 1, Finite 2, Finite (1 / 2)]"
    by simp
  then have fs: "fs = [Finite 1, Finite 2, Finite (1 / 2)]"
    by (auto simp: map_eq_Cons_conv)
  from s bl fs have "getitem (act_source (last acts)) ''txValueSum''
       = Inr (PyFloat (foldl float_add (Finite 0) [Finite 1, Finite 2, Finite (1 / 2)]))"
    by simp
  with ev len vals cnt tot show ?thesis by simp
qed

lemma mismatch_eval:
  "process_block mismatch_response [] =
     (Inr (),
      [\<lparr>act_index = ''ethereum-transaction'', act_type = ''tx'', act_id = PyStr ''0xaa'',
        act_source = PyDict
          [(''hash'', PyStr ''0xaa''),
           (''blockNumber'', PyInt 101),
           (''value'', PyFloat (Finite 1)),
           (''blockTimestamp'', PyDatetime 100000000)]\<rparr>,
       \<lparr>act_index = ''ethereum-block'', act_type = ''b'', act_id = PyInt 100,
        act_source = PyDict
          [(''number'', PyInt 100),
           (''timestamp'', PyDatetime 100000000),
           (''gasLimit'', PyInt 8000000),
           (''gasUsed'', PyInt 4000000),
           (''size'', PyInt 10000),
           (''transactions'', PyList [PyStr ''0xaa'']),
           (''transactionCount'', PyInt 1),
           (''txValueSum'', PyFloat (Finite 1))]\<rparr>])"
  by code_simp

text \<open>
  Claim C4, as stated, fails: the \<^verbatim>\<open>blockNumber\<close> of a normalized transaction is read from
  the transaction's own raw field, not from the block that holds it. A transaction
  carrying \<^verbatim>\<open>0x65\<close> inside the block \<^verbatim>\<open>0x64\<close> is normalized, without an error, to
  blockNumber 101 under a block of number 100.
\<close>

theorem tx_blockNumber_not_parent_counterexample:
  "fst (process_block mismatch_response []) = Inr ()
   \<and> getitem (act_source (hd (snd (process_block mismatch_response [])))) ''blockNumber''
       = Inr (PyInt 101)
   \<and> getitem (act_source (last (snd (process_block mismatch_response [])))) ''number''
       = Inr (PyInt 100)"
  by (simp add: mismatch_eval getitem_def)

text \<open>
  Claim C4, amended. When \<open>process_block\<close> returns normally, it has produced for every raw
  transaction of the block, in order, a normalized transaction whose \<^verbatim>\<open>blockNumber\<close> is
  the transaction's own raw \<^verbatim>\<open>blockNumber\<close> field read by \<^verbatim>\<open>int(_, 0)\<close>, whose
  \<^verbatim>\<open>blockTimestamp\<close> is the parent block's timestamp (the very value stored in the
  normalized block), and whose \<^verbatim>\<open>value\<close> is the raw \<^verbatim>\<open>value\<close> field read by
  \<^verbatim>\<open>int(_, 0)\<close>, converted to a double and divided by \<open>10\<^sup>1\<^sup>8\<close> in double arithmetic.
\<close>

theorem process_block_transactions:
  assumes "process_block response acts = (Inr (), acts')"
  shows "\<exists>block raw_txs ts txs blk.
      getitem response ''result'' = Inr block
    \<and> and_then (getitem block ''transactions'') iterate = Inr raw_txs
    \<and> and_then (and_then (getitem block ''timestamp'') py_int0) fromtimestamp = Inr ts
    \<and> acts' = acts @ txs @ [blk]
    \<and> getitem (act_source blk) ''timestamp'' = Inr ts
    \<and> list_all2
         (\<lambda>raw_tx a. \<exists>nb wei x.
              and_then (getitem raw_tx ''blockNumber'') py_int0 = Inr nb
            \<and> getitem (act_source a) ''blockNumber'' = Inr (PyInt nb)
            \<and> getitem (act_source a) ''blockTimestamp'' = Inr ts
            \<and> and_then (getitem raw_tx ''value'') py_int0 = Inr wei
            \<and> float_of_int wei = Inr (Finite x)
            \<and> getitem (act_source a) ''value''
                = Inr (PyFloat (round_double (x / 1000000000000000000))))
         raw_txs txs"
proof -
  from process_block_Inr [OF assms] obtain block transactions block_nb ts raw_txs hashes tot new block' where
    res: "getitem response ''result'' = Inr block"
    and tr: "getitem block ''transactions'' = Inr transactions"
    and tsd: "and_then (and_then (getitem block ''timestamp'') py_int0) fromtimestamp = Inr ts"
    and it: "iterate transactions = Inr raw_txs"
    and loop: "tx_loop ts raw_txs [] (PyInt 0) acts = (Inr (hashes, tot), acts @ new)"
    and fin: "finish_block block hashes block_nb ts tot = Inr block'"
    and acts': "acts' = acts @ new @
               [\<lparr>act_index = B_INDEX_NAME, act_type = ''b'', act_id = PyInt block_nb,
                 act_source = block'\<rparr>]"
    by blast
  from tx_loop_Inr [OF loop] obtain new' where
    n1: "acts @ new = acts @ new'" and n3: "list_all2 (tx_action_ok ts) raw_txs new'"
    by blast
  from n1 have eq: "new' = new" by simp
  have one: "\<exists>nb wei x.
              and_then (getitem raw_tx ''blockNumber'') py_int0 = Inr nb
            \<and> getitem (act_source a) ''blockNumber'' = Inr (PyInt nb)
            \<and> getitem (act_source a) ''blockTimestamp'' = Inr ts
            \<and> and_then (getitem raw_tx ''value'') py_int0 = Inr wei
            \<and> float_of_int wei = Inr (Finite x)
            \<and> getitem (act_source a) ''value''
                = Inr (PyFloat (round_double (x / 1000000000000000000)))"
    if "tx_action_ok ts raw_tx a" for raw_tx a
  proof -
    from that have st: "stamp_tx ts raw_tx = Inr (act_source a)" by (simp add: tx_action_ok_def)
    from stamp_tx_Inr [OF st] obtain nb wei ether where
      a: "and_then (getitem raw_tx ''blockNumber'') py_int0 = Inr nb"
      and b: "and_then (getitem raw_tx ''value'') py_int0 = Inr wei"
      and c: "truediv (PyInt wei) WEI_ETH_FACTOR = Inr ether"
      and d: "getitem (act_source a) ''blockNumber'' = Inr (PyInt nb)"
      and e: "getitem (act_source a) ''blockTimestamp'' = Inr ts"
      and f: "getitem (act_source a) ''value'' = Inr ether"
      by blast
    from truediv_wei [OF c] obtain x where
      g: "float_of_int wei = Inr (Finite x)"
      and h: "ether = PyFloat (round_double (x / 1000000000000000000))"
      by blast
    show ?thesis
    proof (intro exI conjI)
      show "and_then (getitem raw_tx ''blockNumber'') py_int0 = Inr nb" by (rule a)
      show "getitem (act_source a) ''blockNumber'' = Inr (PyInt nb)" by (rule d)
      show "getitem (act_source a) ''blockTimestamp'' = Inr ts" by (rule e)
      show "and_then (getitem raw_tx ''value'') py_int0 = Inr wei" by (rule b)
      show "float_of_int wei = Inr (Finite x)" by (rule g)
      show "getitem (act_source a) ''value''
                = Inr (PyFloat (round_double (x / 1000000000000000000)))"
        using f h by simp
    qed
  qed
  have all: "list_all2
         (\<lambda>raw_tx a. \<exists>nb wei x.
              and_then (getitem raw_tx ''blockNumber'') py_int0 = Inr nb
            \<and> getitem (act_source a) ''blockNumber'' = Inr (PyInt nb)
            \<and> getitem (act_source a) ''blockTimestamp'' = Inr ts
            \<and> and_then (getitem raw_tx ''value'') py_int0 = Inr wei
            \<and> float_of_int wei = Inr (Finite x)
            \<and> getitem (act_source a) ''value''
                = Inr (PyFloat (round_double (x / 1000000000000000000))))
         raw_txs new"
    using n3 unfolding eq by (rule list_all2_mono) (rule one)
  define blk where "blk = \<lparr>act_index = B_INDEX_NAME, act_type = ''b'', act_id = PyInt block_nb,
                 act_source = block'\<rparr>"
  from finish_block_Inr [OF fin] have "getitem block' ''timestamp'' = Inr ts" by blast
  then have t: "getitem (act_source blk) ''timestamp'' = Inr ts" by (simp add: blk_def)
  have i: "and_then (getitem block ''transactions'') iterate = Inr raw_txs"
    using tr it by (simp add: and_then_def)
  have ac: "acts' = acts @ new @ [blk]" using acts' by (simp add: blk_def)
  show ?thesis
  proof (intro exI conjI)
    show "getitem response ''result'' = Inr block" by (rule res)
    show "and_then (getitem block ''transactions'') iterate = Inr raw_txs" by (rule i)
    show "and_then (and_then (getitem block ''timestamp'') py_int0) fromtimestamp = Inr ts"
      by (rule tsd)
    show "acts' = acts @ new @ [blk]" by (rule ac)
    show "getitem (act_source blk) ''timestamp'' = Inr ts" by (rule t)
    show "list_all2
         (\<lambda>raw_tx a. \<exists>nb wei x.
              and_then (getitem raw_tx ''blockNumber'') py_int0 = Inr nb
            \<and> getitem (act_source a) ''blockNumber'' = Inr (PyInt nb)
            \<and> getitem (act_source a) ''blockTimestamp'' = Inr ts
            \<and> and_then (getitem raw_tx ''value'') py_int0 = Inr wei
            \<and> float_of_int wei = Inr (Finite x)
            \<and> getitem (act_source a) ''value''
                = Inr (PyFloat (round_double (x / 1000000000000000000))))
         raw_txs new" by (rule all)
  qed
qed

theorem process_block_transactions_witness:
  "\<exists>tx blk. process_block mismatch_response [] = (Inr (), [tx, blk])
     \<and> getitem (act_source tx) ''blockNumber'' = Inr (PyInt 101)
     \<and> getitem (act_source tx) ''blockTimestamp'' = getitem (act_source blk) ''timestamp''
     \<and> getitem (act_source tx) ''value'' = Inr (PyFloat (Finite 1))"
proof -
  from process_block_transactions [OF mismatch_eval] obtain txs blk where
    a: "[\<lparr>act_index = ''ethereum-transaction'', act_type = ''tx'', act_id = PyStr ''0xaa'',
        act_source = PyDict
          [(''hash'', PyStr ''0xaa''),
           (''blockNumber'', PyInt 101),
           (''value'', PyFloat (Finite 1)),
           (''blockTimestamp'', PyDatetime 100000000)]\<rparr>,
       \<lparr>act_index = ''ethereum-block'', act_type = ''b'', act_id = PyInt 100,
        act_source = PyDict
          [(''number'', PyInt 100),
           (''timestamp'', PyDatetime 100000000),
           (''gasLimit'', PyInt 8000000),
           (''gasUsed'', PyInt 4000000),
           (''size'', PyInt 10000),
           (''transactions'', PyList [PyStr ''0xaa'']),
           (''transactionCount'', PyInt 1),
           (''txValueSum'', PyFloat (Finite 1))]\<rparr>] = [] @ txs @ [blk]"
    by blast
  from a obtain tx where txs: "txs = [tx]"
    by (cases txs; cases "tl txs") auto
  from a txs have "process_block mismatch_response [] = (Inr (), [tx, blk])"
    by (simp add: mismatch_eval)
  moreover from a txs have "getitem (act_source tx) ''blockNumber'' = Inr (PyInt 101)"
    "getitem (act_source tx) ''blockTimestamp'' = getitem (act_source blk) ''timestamp''"
    "getitem (act_source tx) ''value'' = Inr (PyFloat (Finite 1))"
    by (auto simp: getitem_def)
  ultimately show ?thesis by blast
qed

section \<open>Verification: fetching and committing a chunk\<close>



















lemma handle_fetch_error_network:
  "e = ClientError msg \<or> e = TimeoutError msg \<Longrightarrow>
   handle_fetch_error block e w =
     (Inr (), w\<lparr>error_log := error_log w @ [LogBlock (PyInt block)],
                stdout := stdout w @ [IssueWithBlock block msg]\<rparr>)"
  by (auto simp: handle_fetch_error_def)

lemma run_append:
  "run pre late process_fn w = (Inr u, w1) \<Longrightarrow>
   run (pre @ post) late process_fn w = run post late process_fn w1"
proof (induction pre arbitrary: w)
  case Nil
  then show ?case by simp
next
  case (Cons p pre)
  obtain i response where p: "p = (i, response)" by (cases p) auto
  obtain r w' where f: "fetch i process_fn response w = (r, w')"
    by (cases "fetch i process_fn response w") auto
  show ?case
  proof (cases r)
    case (Inl e)
    with Cons.prems p f show ?thesis by simp
  next
    case (Inr u')
    with Cons.prems p f have "run pre late process_fn w' = (Inr u, w1)" by simp
    from Cons.IH [OF this] Inr p f show ?thesis by simp
  qed
qed

lemma handle_fetch_error_frame:
  "handle_fetch_error block e w = (r, w') \<Longrightarrow>
   out_actions w' = out_actions w \<and> bulk_calls w' = bulk_calls w"
  by (cases e) (auto simp: handle_fetch_error_def)

lemma fetch_bulk_calls:
  "fetch block process_fn response w = (r, w') \<Longrightarrow> bulk_calls w' = bulk_calls w"
  by (auto simp: fetch_def split: outcome.splits prod.splits sum.splits
      dest!: handle_fetch_error_frame)

lemma finish_late_bulk_calls:
  "bulk_calls (finish_late late block_range process_fn w) = bulk_calls w"
proof (induction late block_range process_fn w rule: finish_late.induct)
  case (3 late i response block_range process_fn w)
  have "bulk_calls (snd (fetch i process_fn response w)) = bulk_calls w"
    by (rule fetch_bulk_calls [of i process_fn response w "fst (fetch i process_fn response w)"]) simp
  with 3 show ?case by simp
qed simp_all

lemma run_bulk_calls:
  "run block_range late process_fn w = (r, w') \<Longrightarrow> bulk_calls w' = bulk_calls w"
proof (induction block_range arbitrary: w)
  case Nil
  then show ?case by simp
next
  case (Cons p ps)
  obtain i response where p: "p = (i, response)" by (cases p) auto
  obtain r1 w1 where f: "fetch i process_fn response w = (r1, w1)"
    by (cases "fetch i process_fn response w") auto
  note b = fetch_bulk_calls [OF f]
  show ?case
  proof (cases r1)
    case (Inl e)
    with Cons.prems p f b show ?thesis by (auto simp: finish_late_bulk_calls)
  next
    case (Inr u)
    with Cons.prems p f have "run ps late process_fn w1 = (r, w')" by simp
    from Cons.IH [OF this] b show ?thesis by simp
  qed
qed

lemma handle_fetch_error_cong:
  "fst (handle_fetch_error block e w) = fst (handle_fetch_error block e w')"
  by (cases e) (simp_all add: handle_fetch_error_def)

lemma handle_fetch_error_out_actions:
  "out_actions (snd (handle_fetch_error block e w)) = out_actions w"
  by (cases e) (simp_all add: handle_fetch_error_def)

lemma fetch_cong:
  assumes "out_actions w = out_actions w'"
  shows "fst (fetch block process_fn response w) = fst (fetch block process_fn response w')
       \<and> out_actions (snd (fetch block process_fn response w))
         = out_actions (snd (fetch block process_fn response w'))"
proof (cases response)
  case (Raises e)
  then show ?thesis
    using assms handle_fetch_error_cong [of block e w w']
    by (simp add: fetch_def handle_fetch_error_out_actions)
next
  case (Response json)
  obtain r acts where pf: "process_fn json (out_actions w') = (r, acts)"
    by (cases "process_fn json (out_actions w')") auto
  show ?thesis
  proof (cases r)
    case (Inl e)
    with Response pf assms show ?thesis
      using handle_fetch_error_cong [of block e "w\<lparr>out_actions := acts\<rparr>" "w'\<lparr>out_actions := acts\<rparr>"]
      by (simp add: fetch_def handle_fetch_error_out_actions)
  next
    case (Inr u)
    with Response pf assms show ?thesis by (simp add: fetch_def)
  qed
qed

lemma finish_late_cong:
  "out_actions w = out_actions w' \<Longrightarrow>
   out_actions (finish_late late block_range process_fn w)
     = out_actions (finish_late late block_range process_fn w')"
proof (induction late block_range process_fn w arbitrary: w' rule: finish_late.induct)
  case (3 late i response block_range process_fn w)
  from fetch_cong [OF "3.prems", of i process_fn response]
  have "out_actions (snd (fetch i process_fn response w))
      = out_actions (snd (fetch i process_fn response w'))" by simp
  from "3.IH" [OF this] show ?case by simp
qed simp_all

lemma run_cong:
  "out_actions w = out_actions w' \<Longrightarrow>
   fst (run block_range late process_fn w) = fst (run block_range late process_fn w')
   \<and> out_actions (snd (run block_range late process_fn w))
     = out_actions (snd (run block_range late process_fn w'))"
proof (induction block_range arbitrary: w w')
  case Nil
  then show ?case by simp
next
  case (Cons p ps)
  obtain i response where p: "p = (i, response)" by (cases p) auto
  obtain r1 w1 where f: "fetch i process_fn response w = (r1, w1)"
    by (cases "fetch i process_fn response w") auto
  obtain r2 w2 where f': "fetch i process_fn response w' = (r2, w2)"
    by (cases "fetch i process_fn response w'") auto
  from fetch_cong [OF Cons.prems, of i process_fn response] f f'
  have r: "r2 = r1" and o: "out_actions w1 = out_actions w2" by simp_all
  show ?case
  proof (cases r1)
    case (Inl e)
    with p f f' finish_late_cong [OF o] show ?thesis unfolding r by simp
  next
    case (Inr u)
    with p f f' Cons.IH [OF o] show ?thesis unfolding r by simp
  qed
qed

text \<open>
  Claim C6, amended. When the request of a block raises \<^verbatim>\<open>aiohttp.ClientError\<close> or
  \<^verbatim>\<open>asyncio.TimeoutError\<close>, \<open>fetch\<close> returns normally: it appends to the error log an entry
  made of the block number, prints the block number with the error, and leaves the
  action list as it was. \<open>run\<close> goes on with the fetches that complete after it, and
  its result and action list are those of the same chunk without the failed block.
\<close>

theorem network_error_skips_block:
  assumes "e = ClientError msg \<or> e = TimeoutError msg"
    and "run pre late process_fn w = (Inr (), w1)"
  shows "fetch block process_fn (Raises e) w1 =
           (Inr (), w1\<lparr>error_log := error_log w1 @ [LogBlock (PyInt block)],
                       stdout := stdout w1 @ [IssueWithBlock block msg]\<rparr>)
       \<and> run (pre @ (block, Raises e) # post) late process_fn w =
           run post late process_fn
             (w1\<lparr>error_log := error_log w1 @ [LogBlock (PyInt block)],
                  stdout := stdout w1 @ [IssueWithBlock block msg]\<rparr>)
       \<and> fst (run (pre @ (block, Raises e) # post) late process_fn w)
           = fst (run (pre @ post) late process_fn w)
       \<and> out_actions (snd (run (pre @ (block, Raises e) # post) late process_fn w))
           = out_actions (snd (run (pre @ post) late process_fn w))"
proof -
  define w2 where "w2 = w1\<lparr>error_log := error_log w1 @ [LogBlock (PyInt block)],
                       stdout := stdout w1 @ [IssueWithBlock block msg]\<rparr>"
  have f: "fetch block process_fn (Raises e) w1 = (Inr (), w2)"
    using handle_fetch_error_network [OF assms(1)] by (simp add: fetch_def w2_def)
  have r1: "run (pre @ (block, Raises e) # post) late process_fn w = run post late process_fn w2"
    using run_append [OF assms(2), of "(block, Raises e) # post"] f by simp
  have r2: "run (pre @ post) late process_fn w = run post late process_fn w1"
    by (rule run_append [OF assms(2)])
  have "out_actions w2 = out_actions w1" by (simp add: w2_def)
  from run_cong [OF this, of post late process_fn] r1 r2 f show ?thesis
    unfolding w2_def by simp
qed

theorem network_error_skips_block_witness:
  "fst (run [(7, Raises (TimeoutError ''timed out'')), (8, Response scenario_response)] 0
          process_block world0) = Inr ()
   \<and> error_log (snd (run [(7, Raises (TimeoutError ''timed out'')), (8, Response scenario_response)] 0
          process_block world0)) = [LogBlock (PyInt 7)]
   \<and> stdout (snd (run [(7, Raises (TimeoutError ''timed out'')), (8, Response scenario_response)] 0
          process_block world0)) = [IssueWithBlock 7 ''timed out'']
   \<and> length (out_actions (snd (run [(7, Raises (TimeoutError ''timed out'')), (8, Response scenario_response)] 0
          process_block world0))) = 2"
proof -
  have e: "TimeoutError ''timed out'' = ClientError ''timed out''
         \<or> TimeoutError ''timed out'' = TimeoutError ''timed out''" by simp
  have r: "run [] 0 process_block world0 = (Inr (), world0)" by simp
  from network_error_skips_block [OF e r, of 7 "[(8, Response scenario_response)]"]
  have "run [(7, Raises (TimeoutError ''timed out'')), (8, Response scenario_response)] 0
          process_block world0 =
        run [(8, Response scenario_response)] 0 process_block
          (world0\<lparr>error_log := error_log world0 @ [LogBlock (PyInt 7)],
                   stdout := stdout world0 @ [IssueWithBlock 7 ''timed out'']\<rparr>)"
    by simp
  then show ?thesis
    by (simp add: fetch_def scenario_eval world0_def)
qed

text \<open>
  Claim C6, as stated, fails on where the error goes: the entry of the error log is
  \<^verbatim>\<open>"block: " + str(block)\<close>, the block number alone; the error itself is only printed
  to the standard output.
\<close>

theorem error_log_entry_counterexample:
  "error_log (snd (fetch 7 process_block (Raises (TimeoutError ''timed out'')) world0))
     = [LogBlock (PyInt 7)]
   \<and> stdout (snd (fetch 7 process_block (Raises (TimeoutError ''timed out'')) world0))
     = [IssueWithBlock 7 ''timed out'']"
  by (simp add: fetch_def handle_fetch_error_def world0_def)





lemma commit_no_actions:
  "out_actions w = [] \<Longrightarrow> commit bulk w = (Inr (), w)"
  by (simp add: commit_def)

lemma commit_bulk_index_error:
  "fst (commit (Some (BulkIndexError msg)) w) = Inr ()
   \<and> error_log (snd (commit (Some (BulkIndexError msg)) w)) =
       error_log w @ map (\<lambda>act. LogBlock (act_id act)) (filter (\<lambda>act. act_type act = ''b'') (out_actions w))"
  by (simp add: commit_def Let_def)

lemma commit_other_exception:
  assumes "filter (\<lambda>act. act_type act = ''b'') (out_actions w) \<noteq> []
         \<or> filter (\<lambda>act. act_type act = ''tx'') (out_actions w) \<noteq> []"
    and "\<And>msg. e \<noteq> BulkIndexError msg"
  shows "commit (Some e) w = (Inl e, w\<lparr>bulk_calls := bulk_calls w @ [out_actions w]\<rparr>)"
  using assms by (cases e) (auto simp: commit_def Let_def)

text \<open>
  Claim C7, as stated, fails: a bulk write that fails as a whole with an exception of
  another class than \<^verbatim>\<open>BulkIndexError\<close> (the store cannot be reached, say) makes
  \<open>setup_process\<close> raise that exception, and no block identifier is logged.
\<close>

theorem bulk_connection_error_raises_counterexample:
  "fst (setup_process [(100, Response scenario_response)] 0
          (Some (OtherException ''ConnectionError'')) world0)
     = Inl (OtherException ''ConnectionError'')
   \<and> error_log (snd (setup_process [(100, Response scenario_response)] 0
          (Some (OtherException ''ConnectionError'')) world0)) = []
   \<and> length (bulk_calls (snd (setup_process [(100, Response scenario_response)] 0
          (Some (OtherException ''ConnectionError'')) world0))) = 1"
  by (simp add: setup_process_def fetch_def scenario_eval commit_def Let_def world0_def)

text \<open>
  Claim C7, amended. Let \<open>run\<close> have returned normally for the chunk. If the bulk write
  raises \<^verbatim>\<open>BulkIndexError\<close> (the store's report of the documents that failed, some or
  all), \<open>setup_process\<close> returns normally, having appended to the error log one entry per
  block document of the chunk, with its identifier. If the bulk write raises an exception
  of any other class, \<open>setup_process\<close> raises it and logs and prints nothing. And if the
  action list is empty, \<open>setup_process\<close> returns normally whatever the store would do,
  with no bulk write made and the world as \<open>run\<close> left it.
\<close>

theorem bulk_failure_handling:
  assumes "run block_range late process_block (w\<lparr>out_actions := []\<rparr>) = (Inr (), w1)"
  shows "fst (setup_process block_range late (Some (BulkIndexError msg)) w) = Inr ()
       \<and> error_log (snd (setup_process block_range late (Some (BulkIndexError msg)) w)) =
           error_log w1 @
             map (\<lambda>act. LogBlock (act_id act))
               (filter (\<lambda>act. act_type act = ''b'') (out_actions w1))
       \<and> (out_actions w1 = [] \<longrightarrow>
            setup_process block_range late bulk w = (Inr (), w1) \<and> bulk_calls w1 = bulk_calls w)
       \<and> ((filter (\<lambda>act. act_type act = ''b'') (out_actions w1) \<noteq> []
             \<or> filter (\<lambda>act. act_type act = ''tx'') (out_actions w1) \<noteq> [])
            \<and> (\<forall>m. e \<noteq> BulkIndexError m) \<longrightarrow>
            setup_process block_range late (Some e) w
              = (Inl e, w1\<lparr>bulk_calls := bulk_calls w1 @ [out_actions w1]\<rparr>))"
proof -
  have s: "setup_process block_range late b w = commit b w1" for b
    using assms by (simp add: setup_process_def)
  have c: "bulk_calls w1 = bulk_calls w"
    using run_bulk_calls [OF assms] by simp
  have o: "setup_process block_range late (Some e) w
              = (Inl e, w1\<lparr>bulk_calls := bulk_calls w1 @ [out_actions w1]\<rparr>)"
    if "filter (\<lambda>act. act_type act = ''b'') (out_actions w1) \<noteq> []
             \<or> filter (\<lambda>act. act_type act = ''tx'') (out_actions w1) \<noteq> []"
      and "\<forall>m. e \<noteq> BulkIndexError m"
    using commit_other_exception [OF that(1), of e] that(2) by (simp add: s)
  show ?thesis
    using commit_bulk_index_error [of msg w1] commit_no_actions [of w1 bulk] c o
    by (simp add: s)
qed

theorem bulk_failure_handling_witness:
  "run [(100, Response scenario_response)] 0 process_block (world0\<lparr>out_actions := []\<rparr>)
     = (Inr (), world0\<lparr>out_actions := snd (process_block scenario_response [])\<rparr>)
   \<and> fst (setup_process [(100, Response scenario_response)] 0 (Some (BulkIndexError ''failed'')) world0)
       = Inr ()
   \<and> error_log (snd (setup_process [(100, Response scenario_response)] 0
         (Some (BulkIndexError ''failed'')) world0)) = [LogBlock (PyInt 100)]
   \<and> fst (setup_process [(100, Response scenario_response)] 0 (Some (OtherException ''ConnectionError'')) world0)
       = Inl (OtherException ''ConnectionError'')
   \<and> run [(7, Raises (TimeoutError ''timed out''))] 0 process_block (world0\<lparr>out_actions := []\<rparr>)
     = (Inr (), world0\<lparr>error_log := [LogBlock (PyInt 7)], stdout := [IssueWithBlock 7 ''timed out'']\<rparr>)
   \<and> setup_process [(7, Raises (TimeoutError ''timed out''))] 0 None world0
     = (Inr (), world0\<lparr>error_log := [LogBlock (PyInt 7)], stdout := [IssueWithBlock 7 ''timed out'']\<rparr>)
   \<and> bulk_calls (snd (setup_process [(7, Raises (TimeoutError ''timed out''))] 0 None world0)) = []"
proof -
  have r1: "run [(100, Response scenario_response)] 0 process_block (world0\<lparr>out_actions := []\<rparr>)
     = (Inr (), world0\<lparr>out_actions := snd (process_block scenario_response [])\<rparr>)"
    by (simp add: fetch_def scenario_eval world0_def)
  have r2: "run [(7, Raises (TimeoutError ''timed out''))] 0 process_block (world0\<lparr>out_actions := []\<rparr>)
     = (Inr (), world0\<lparr>error_log := [LogBlock (PyInt 7)], stdout := [IssueWithBlock 7 ''timed out'']\<rparr>)"
    by (simp add: fetch_def handle_fetch_error_def world0_def)
  from bulk_failure_handling [OF r1, of "''failed''" None "OtherException ''ConnectionError''"]
  have a: "fst (setup_process [(100, Response scenario_response)] 0 (Some (BulkIndexError ''failed'')) world0)
       = Inr ()
   \<and> error_log (snd (setup_process [(100, Response scenario_response)] 0
         (Some (BulkIndexError ''failed'')) world0)) = [LogBlock (PyInt 100)]
   \<and> fst (setup_process [(100, Response scenario_response)] 0 (Some (OtherException ''ConnectionError'')) world0)
       = Inl (OtherException ''ConnectionError'')"
    by (simp add: scenario_eval world0_def)
  from bulk_failure_handling [OF r2, of _ None]
  have b: "setup_process [(7, Raises (TimeoutError ''timed out''))] 0 None world0
     = (Inr (), world0\<lparr>error_log := [LogBlock (PyInt 7)], stdout := [IssueWithBlock 7 ''timed out'']\<rparr>)"
    by (simp add: world0_def)
  from r1 r2 a b show ?thesis by (simp add: world0_def)
qed

section \<open>Verification: the admission gate\<close>




end
